theory Spec2Isabelle
  imports Main "HOL-Library.Word"
begin

unbundle bit_operations_syntax

section \<open>Universal console of kernel.c: data model\<close>

text \<open>
  The model follows \<^verbatim>\<open>src/toolchain/kernel.c\<close>. Every \<^verbatim>\<open>uint32_t\<close> is a
  \<open>32 word\<close> (arithmetic wraps, \<open><\<close> and \<open>div\<close> are unsigned), every \<^verbatim>\<open>uint8_t\<close>
  and \<^verbatim>\<open>char\<close> an \<open>8 word\<close>. A C \<^verbatim>\<open>int\<close> is a \<open>32 word\<close> read in two's complement:
  it is compared with \<open><s\<close> and read with \<open>sint\<close>; the casts between \<^verbatim>\<open>int\<close> and
  \<^verbatim>\<open>uint32_t\<close> keep the bits. Signed overflow, undefined in C, wraps in the model; the
  theorems that depend on signed arithmetic state the range in which no overflow occurs.
  Pointers are 32-bit addresses, the null pointer is 0.
\<close>

type_synonym u8 = "8 word"
type_synonym u32 = "32 word"

datatype platform_type_t =
    PLATFORM_UNKNOWN
  | PLATFORM_PI_BCM2835
  | PLATFORM_PI_BCM2836
  | PLATFORM_PI_BCM2837
  | PLATFORM_PI_BCM2837B0
  | PLATFORM_PI_BCM2711
  | PLATFORM_QEMU_VERSATILE

record platform_info_t =
  platform :: platform_type_t
  peripheral_base :: u32
  mailbox_base :: u32
  gpio_base :: u32
  uart_base :: u32
  usb_base :: u32
  name :: string
  has_usb :: bool
  has_ps2 :: bool

definition BCM2835_PERIPHERAL_BASE :: u32 where "BCM2835_PERIPHERAL_BASE = 0x20000000"
definition BCM2836_PERIPHERAL_BASE :: u32 where "BCM2836_PERIPHERAL_BASE = 0x3F000000"
definition BCM2711_PERIPHERAL_BASE :: u32 where "BCM2711_PERIPHERAL_BASE = 0xFE000000"

definition QEMU_PL050_KBD_BASE :: u32 where "QEMU_PL050_KBD_BASE = 0x10007000"
definition QEMU_PL050_MOUSE_BASE :: u32 where "QEMU_PL050_MOUSE_BASE = 0x10008000"
definition QEMU_PL011_UART_BASE :: u32 where "QEMU_PL011_UART_BASE = 0x101F1000"
definition QEMU_CLCD_BASE :: u32 where "QEMU_CLCD_BASE = 0x10120000"

definition GPIO_OFFSET :: u32 where "GPIO_OFFSET = 0x200000"
definition UART_OFFSET :: u32 where "UART_OFFSET = 0x201000"
definition MAILBOX_OFFSET :: u32 where "MAILBOX_OFFSET = 0x00B880"
definition USB_OFFSET :: u32 where "USB_OFFSET = 0x980000"

definition FONT_WIDTH :: u32 where "FONT_WIDTH = 8"
definition FONT_HEIGHT :: u32 where "FONT_HEIGHT = 16"
definition MIN_CONSOLE_COLS :: u32 where "MIN_CONSOLE_COLS = 40"
definition MIN_CONSOLE_ROWS :: u32 where "MIN_CONSOLE_ROWS = 15"
definition MAX_BUFFER_LINES :: u32 where "MAX_BUFFER_LINES = 3000"
definition STATUS_BAR_HEIGHT :: u32 where "STATUS_BAR_HEIGHT = FONT_HEIGHT"

definition COLOR_BLACK :: u32 where "COLOR_BLACK = 0xFF000000"
definition COLOR_GREEN :: u32 where "COLOR_GREEN = 0xFF00AA00"
definition COLOR_CYAN :: u32 where "COLOR_CYAN = 0xFF00AAAA"
definition COLOR_DARK_GRAY :: u32 where "COLOR_DARK_GRAY = 0xFF555555"
definition COLOR_YELLOW :: u32 where "COLOR_YELLOW = 0xFFFFFF55"
definition COLOR_WHITE :: u32 where "COLOR_WHITE = 0xFFFFFFFF"

lemmas hw_consts =
  BCM2835_PERIPHERAL_BASE_def BCM2836_PERIPHERAL_BASE_def BCM2711_PERIPHERAL_BASE_def
  QEMU_PL050_KBD_BASE_def QEMU_PL050_MOUSE_BASE_def QEMU_PL011_UART_BASE_def
  QEMU_CLCD_BASE_def GPIO_OFFSET_def UART_OFFSET_def MAILBOX_OFFSET_def USB_OFFSET_def

lemmas console_consts =
  FONT_WIDTH_def FONT_HEIGHT_def MIN_CONSOLE_COLS_def MIN_CONSOLE_ROWS_def
  MAX_BUFFER_LINES_def STATUS_BAR_HEIGHT_def

record console_cell_t =
  character :: u8
  foreground :: u32
  background :: u32
  attributes :: u8

text \<open>
  \<^verbatim>\<open>universal_console_t\<close>. The pointer \<^verbatim>\<open>framebuffer\<close> is its address; the pointer
  \<^verbatim>\<open>buffer\<close> always points at \<^verbatim>\<open>static_buffer\<close>, so the field holds the cells of
  that array by index. The indices the code computes are \<^verbatim>\<open>uint32_t\<close> expressions, so
  the store is indexed by \<open>32 word\<close>; an index past the 3000 * 240 cells of the array
  is outside the object in C.
\<close>

record universal_console_t =
  framebuffer :: u32
  width :: u32
  height :: u32
  pitch :: u32
  console_cols :: u32
  console_rows :: u32
  buffer :: "u32 \<Rightarrow> console_cell_t"
  buffer_lines :: u32
  current_line :: u32
  current_col :: u32
  display_start :: u32
  current_fg :: u32
  current_bg :: u32
  cursor_visible :: bool
  cursor_blink_counter :: u32
  mouse_x :: u32
  mouse_y :: u32
  mouse_buttons :: u8
  mouse_available :: bool
  keyboard_available :: bool
  total_chars :: u32
  scroll_position :: u32

text \<open>
  The rest of the mutable state the console touches: the pixels behind
  \<^verbatim>\<open>console.framebuffer\<close> (by pixel index from that pointer) and the two
  function-local statics of \<^verbatim>\<open>handle_mouse_input\<close>.
\<close>

record kernel_t = universal_console_t +
  vram :: "u32 \<Rightarrow> u32"
  mouse_packet :: "u8 list"
  packet_index :: u32

section \<open>Hardware detection\<close>

text \<open>
  \<^verbatim>\<open>safe_peek32\<close> reads a physical address; \<open>mem\<close> is what the bus returns there.
  The result is the value stored through the out-pointer and the returned flag.
\<close>

definition safe_peek32 :: "(u32 \<Rightarrow> u32) \<Rightarrow> u32 \<Rightarrow> u32 \<times> bool" where
  "safe_peek32 mem address =
     (let v = mem address in (v, v \<noteq> 0xFFFFFFFF \<and> v \<noteq> 0x00000000))"

text \<open>
  \<^verbatim>\<open>detect_platform\<close> writes the global \<^verbatim>\<open>current_platform\<close> and returns the
  discriminant: the result is the pair of the return value and the new global.
\<close>

definition detect_platform ::
  "(u32 \<Rightarrow> u32) \<Rightarrow> platform_info_t \<Rightarrow> platform_type_t \<times> platform_info_t" where
  "detect_platform mem cp =
     (let (test_value, kbd) = safe_peek32 mem (QEMU_PL050_KBD_BASE + 0x04) in
      if kbd \<and> test_value AND 0xFF \<noteq> 0xFF then
        (PLATFORM_QEMU_VERSATILE,
         cp\<lparr>platform := PLATFORM_QEMU_VERSATILE,
            peripheral_base := 0x10000000,
            mailbox_base := 0,
            gpio_base := QEMU_PL050_KBD_BASE,
            uart_base := QEMU_PL011_UART_BASE,
            usb_base := 0,
            name := ''QEMU ARM Versatile PB'',
            has_usb := False,
            has_ps2 := True\<rparr>)
      else if snd (safe_peek32 mem (BCM2711_PERIPHERAL_BASE + MAILBOX_OFFSET + 0x18)) then
        (PLATFORM_PI_BCM2711,
         cp\<lparr>platform := PLATFORM_PI_BCM2711,
            peripheral_base := BCM2711_PERIPHERAL_BASE,
            mailbox_base := BCM2711_PERIPHERAL_BASE + MAILBOX_OFFSET,
            gpio_base := BCM2711_PERIPHERAL_BASE + GPIO_OFFSET,
            uart_base := BCM2711_PERIPHERAL_BASE + UART_OFFSET,
            usb_base := BCM2711_PERIPHERAL_BASE + USB_OFFSET,
            name := ''Raspberry Pi 4/400/CM4 (BCM2711)'',
            has_usb := True,
            has_ps2 := False\<rparr>)
      else if snd (safe_peek32 mem (BCM2836_PERIPHERAL_BASE + MAILBOX_OFFSET + 0x18)) then
        (let arm_timer_base = BCM2836_PERIPHERAL_BASE + 0x40000;
             cp1 = (if snd (safe_peek32 mem arm_timer_base)
                    then cp\<lparr>platform := PLATFORM_PI_BCM2837,
                            name := ''Raspberry Pi 2/3/Zero2W (BCM2836/2837)''\<rparr>
                    else cp\<lparr>platform := PLATFORM_PI_BCM2836,
                            name := ''Raspberry Pi 2 (BCM2836)''\<rparr>);
             cp2 = cp1\<lparr>peripheral_base := BCM2836_PERIPHERAL_BASE,
                       mailbox_base := BCM2836_PERIPHERAL_BASE + MAILBOX_OFFSET,
                       gpio_base := BCM2836_PERIPHERAL_BASE + GPIO_OFFSET,
                       uart_base := BCM2836_PERIPHERAL_BASE + UART_OFFSET,
                       usb_base := BCM2836_PERIPHERAL_BASE + USB_OFFSET,
                       has_usb := True,
                       has_ps2 := False\<rparr>
         in (platform cp2, cp2))
      else
        (PLATFORM_PI_BCM2835,
         cp\<lparr>platform := PLATFORM_PI_BCM2835,
            peripheral_base := BCM2835_PERIPHERAL_BASE,
            mailbox_base := BCM2835_PERIPHERAL_BASE + MAILBOX_OFFSET,
            gpio_base := BCM2835_PERIPHERAL_BASE + GPIO_OFFSET,
            uart_base := BCM2835_PERIPHERAL_BASE + UART_OFFSET,
            usb_base := BCM2835_PERIPHERAL_BASE + USB_OFFSET,
            name := ''Raspberry Pi 1/Zero (BCM2835)'',
            has_usb := True,
            has_ps2 := False\<rparr>))"

section \<open>Mailbox and display setup\<close>

definition mailbox_available :: "platform_info_t \<Rightarrow> bool" where
  "mailbox_available cp \<longleftrightarrow>
     mailbox_base cp \<noteq> 0 \<and> platform cp \<noteq> PLATFORM_QEMU_VERSATILE"

text \<open>
  \<^verbatim>\<open>display_request_t\<close>, the property block shared with the firmware. The fields
  \<^verbatim>\<open>size\<close>, \<^verbatim>\<open>code\<close>, \<^verbatim>\<open>depth\<close> and \<^verbatim>\<open>pitch\<close> carry the prefix \<open>req_\<close>
  (\<open>size\<close> is a HOL constant, \<open>pitch\<close> a field of the console).
\<close>

record display_request_t =
  req_size :: u32
  req_code :: u32
  tag_get_physical :: u32
  tag_get_physical_size :: u32
  tag_get_physical_code :: u32
  physical_width :: u32
  physical_height :: u32
  tag_set_physical :: u32
  tag_set_physical_size :: u32
  tag_set_physical_code :: u32
  set_width :: u32
  set_height :: u32
  tag_set_virtual :: u32
  tag_set_virtual_size :: u32
  tag_set_virtual_code :: u32
  virtual_width :: u32
  virtual_height :: u32
  tag_set_depth :: u32
  tag_set_depth_size :: u32
  tag_set_depth_code :: u32
  req_depth :: u32
  tag_allocate :: u32
  tag_allocate_size :: u32
  tag_allocate_code :: u32
  fb_address :: u32
  fb_size :: u32
  tag_get_pitch :: u32
  tag_get_pitch_size :: u32
  tag_get_pitch_code :: u32
  req_pitch :: u32
  end_tag :: u32

text \<open>The block with every field zero; the initialisers below name the others.\<close>

definition zero_request :: display_request_t where
  "zero_request =
     \<lparr>req_size = 0, req_code = 0,
      tag_get_physical = 0, tag_get_physical_size = 0, tag_get_physical_code = 0,
      physical_width = 0, physical_height = 0,
      tag_set_physical = 0, tag_set_physical_size = 0, tag_set_physical_code = 0,
      set_width = 0, set_height = 0,
      tag_set_virtual = 0, tag_set_virtual_size = 0, tag_set_virtual_code = 0,
      virtual_width = 0, virtual_height = 0,
      tag_set_depth = 0, tag_set_depth_size = 0, tag_set_depth_code = 0, req_depth = 0,
      tag_allocate = 0, tag_allocate_size = 0, tag_allocate_code = 0,
      fb_address = 0, fb_size = 0,
      tag_get_pitch = 0, tag_get_pitch_size = 0, tag_get_pitch_code = 0, req_pitch = 0,
      end_tag = 0\<rparr>"

text \<open>
  \<^verbatim>\<open>sizeof(display_request_t)\<close>: 31 words, 124 bytes, rounded up to the 16-byte
  alignment of the type.
\<close>

definition sizeof_display_request_t :: u32 where
  "sizeof_display_request_t = 128"

text \<open>
  The firmware side of a property call. \<^verbatim>\<open>mailbox_write\<close> followed by
  \<^verbatim>\<open>mailbox_read\<close> hands the block to the GPU and busy-waits for the reply on
  channel 8; the GPU writes its answer into the block. The parameter \<open>gpu\<close> is that
  environment: \<open>gpu req = Some r\<close> when the reply arrives and the block then holds
  \<open>r\<close>, \<open>None\<close> when a busy-wait loop never ends. Both callers have checked
  \<^verbatim>\<open>mailbox_available\<close> before, so the early returns of the two functions are not taken.
\<close>

type_synonym gpu_t = "display_request_t \<Rightarrow> display_request_t option"

definition detect_display_resolution ::
  "gpu_t \<Rightarrow> platform_info_t \<Rightarrow> (int \<times> u32 \<times> u32) option" where
  "detect_display_resolution gpu cp =
     (if platform cp = PLATFORM_QEMU_VERSATILE then Some (0, 640, 480)
      else if \<not> mailbox_available cp then Some (- 1, 640, 480)
      else
        (case gpu (zero_request\<lparr>req_size := sizeof_display_request_t,
                                 tag_get_physical := 0x40003,
                                 tag_get_physical_size := 8\<rparr>) of
           None \<Rightarrow> None
         | Some request \<Rightarrow>
             if req_code request = 0x80000000 \<and> physical_width request > 0
                \<and> physical_height request > 0
             then Some (0, physical_width request, physical_height request)
             else
               (case platform cp of
                  PLATFORM_PI_BCM2711 \<Rightarrow> Some (- 1, 1920, 1080)
                | PLATFORM_PI_BCM2837 \<Rightarrow> Some (- 1, 1680, 1050)
                | PLATFORM_PI_BCM2837B0 \<Rightarrow> Some (- 1, 1680, 1050)
                | PLATFORM_PI_BCM2836 \<Rightarrow> Some (- 1, 1280, 1024)
                | _ \<Rightarrow> Some (- 1, 1024, 768))))"

definition fb_request_init :: display_request_t where
  "fb_request_init =
     zero_request\<lparr>req_size := sizeof_display_request_t,
                  tag_set_physical := 0x48003, tag_set_physical_size := 8,
                  tag_set_virtual := 0x48004, tag_set_virtual_size := 8,
                  tag_set_depth := 0x48005, tag_set_depth_size := 4, req_depth := 32,
                  tag_allocate := 0x40001, tag_allocate_size := 8,
                  tag_get_pitch := 0x40008, tag_get_pitch_size := 4\<rparr>"

text \<open>
  \<^verbatim>\<open>setup_framebuffer\<close>. The result is \<open>None\<close> when the mailbox never answers,
  otherwise the return value and the console. The static \<^verbatim>\<open>fb_request\<close> starts from
  its initialiser: the function is called once.
\<close>

definition setup_framebuffer ::
  "gpu_t \<Rightarrow> platform_info_t \<Rightarrow> u32 \<Rightarrow> u32 \<Rightarrow> 'a universal_console_t_scheme
     \<Rightarrow> (int \<times> 'a universal_console_t_scheme) option" where
  "setup_framebuffer gpu cp w h console =
     (if platform cp = PLATFORM_QEMU_VERSATILE then
        (let c1 = console\<lparr>framebuffer := 0x200000, width := w, height := h, pitch := w\<rparr>;
             c2 = c1\<lparr>console_cols := width c1 div FONT_WIDTH\<rparr>;
             c3 = c2\<lparr>console_rows := (height c2 - STATUS_BAR_HEIGHT) div FONT_HEIGHT\<rparr>
         in Some (0, c3))
      else if \<not> mailbox_available cp then Some (- 1, console)
      else
        (case gpu (fb_request_init\<lparr>set_width := w, set_height := h,
                                    virtual_width := w, virtual_height := h\<rparr>) of
           None \<Rightarrow> None
         | Some fb_request \<Rightarrow>
             if req_code fb_request \<noteq> 0x80000000 then Some (- 1, console)
             else
               (let a = fb_address fb_request;
                    fb_addr =
                      (case platform cp of
                         PLATFORM_PI_BCM2835 \<Rightarrow> a AND 0x3FFFFFFF
                       | PLATFORM_PI_BCM2836 \<Rightarrow> a AND 0x3FFFFFFF
                       | PLATFORM_PI_BCM2837 \<Rightarrow> a AND 0x3FFFFFFF
                       | PLATFORM_PI_BCM2837B0 \<Rightarrow> a AND 0x3FFFFFFF
                       | PLATFORM_PI_BCM2711 \<Rightarrow>
                           (if a \<ge> 0xC0000000 then a - 0xC0000000 else a)
                       | _ \<Rightarrow> a);
                    c1 = console\<lparr>framebuffer := fb_addr,
                                 width := set_width fb_request,
                                 height := set_height fb_request,
                                 pitch := req_pitch fb_request div 4\<rparr>;
                    c2 = c1\<lparr>console_cols := width c1 div FONT_WIDTH\<rparr>;
                    c3 = c2\<lparr>console_rows :=
                              (height c2 - STATUS_BAR_HEIGHT) div FONT_HEIGHT\<rparr>;
                    c4 = (if console_cols c3 < MIN_CONSOLE_COLS
                          then c3\<lparr>console_cols := MIN_CONSOLE_COLS\<rparr> else c3);
                    c5 = (if console_rows c4 < MIN_CONSOLE_ROWS
                          then c4\<lparr>console_rows := MIN_CONSOLE_ROWS\<rparr> else c4)
                in Some (0, c5))))"

section \<open>Console buffer management\<close>

text \<open>The values a \<^verbatim>\<open>uint32_t\<close> loop counter takes from 0 while it is below \<open>n\<close>.\<close>

definition range32 :: "u32 \<Rightarrow> u32 list" where
  "range32 n = map of_nat [0..<unat n]"

text \<open>Number of elements of \<^verbatim>\<open>static_buffer\<close>: \<^verbatim>\<open>MAX_BUFFER_LINES * 240\<close>.\<close>

definition static_buffer_cells :: u32 where
  "static_buffer_cells = 720000"

definition init_console_buffer ::
  "'a universal_console_t_scheme \<Rightarrow> int \<times> 'a universal_console_t_scheme" where
  "init_console_buffer console =
     (let c1 = console\<lparr>buffer_lines := MAX_BUFFER_LINES\<rparr>;
          buffer_size = buffer_lines c1 * console_cols c1;
          b = fold (\<lambda>i b. b(i := \<lparr>character = 0x20, foreground = COLOR_WHITE,
                                     background = COLOR_BLACK, attributes = 0\<rparr>))
                (range32 (min buffer_size static_buffer_cells)) (buffer c1)
      in (0, c1\<lparr>buffer := b,
                current_line := 0,
                current_col := 0,
                display_start := 0,
                current_fg := COLOR_WHITE,
                current_bg := COLOR_BLACK,
                cursor_visible := True,
                scroll_position := 0\<rparr>))"

text \<open>\<^verbatim>\<open>get_cell\<close>: the index of the cell in the buffer, \<open>None\<close> for the null pointer.\<close>

definition get_cell :: "'a universal_console_t_scheme \<Rightarrow> u32 \<Rightarrow> u32 \<Rightarrow> u32 option" where
  "get_cell console line col =
     (if col \<ge> console_cols console \<or> line \<ge> buffer_lines console then None
      else Some (line * console_cols console + col))"

definition scroll_buffer_up ::
  "'a universal_console_t_scheme \<Rightarrow> 'a universal_console_t_scheme" where
  "scroll_buffer_up console =
     (let cells_per_line = console_cols console;
          b1 = fold (\<lambda>line. fold (\<lambda>col b.
                        let src_idx = (line + 1) * cells_per_line + col;
                            dst_idx = line * cells_per_line + col
                        in b(dst_idx := b src_idx))
                      (range32 cells_per_line))
                 (range32 (buffer_lines console - 1)) (buffer console);
          last_line_start = (buffer_lines console - 1) * cells_per_line;
          b2 = fold (\<lambda>col b.
                  b(last_line_start + col :=
                      (b (last_line_start + col))
                        \<lparr>character := 0x20,
                         foreground := current_fg console,
                         background := current_bg console,
                         attributes := 0\<rparr>))
                 (range32 cells_per_line) b1
      in console\<lparr>buffer := b2\<rparr>)"

section \<open>Console output\<close>

text \<open>
  \<^verbatim>\<open>console_putchar\<close>. The \<^verbatim>\<open>switch\<close> is the chain of tests below, in the order of
  its labels: newline 0x0A, carriage return 0x0D, tab 0x09, backspace 0x08, default.
  The test \<^verbatim>\<open>c >= 32 && c <= 126\<close> gives the same answer for a signed and an unsigned
  \<^verbatim>\<open>char\<close>: a byte of 128 or more is either negative or above 126.
\<close>

function console_putchar ::
  "u8 \<Rightarrow> 'a universal_console_t_scheme \<Rightarrow> 'a universal_console_t_scheme" where
  "console_putchar c console =
     (if c = 0x0A then
        (let c1 = console\<lparr>current_col := 0\<rparr>;
             c2 = c1\<lparr>current_line := current_line c1 + 1\<rparr>;
             c3 = (if current_line c2 \<ge> buffer_lines c2
                   then (let c' = scroll_buffer_up c2
                         in c'\<lparr>current_line := buffer_lines c' - 1\<rparr>)
                   else c2)
         in if current_line c3 \<ge> display_start c3 + console_rows c3
            then (let c4 = c3\<lparr>display_start := current_line c3 - console_rows c3 + 1\<rparr>
                  in c4\<lparr>scroll_position := display_start c4\<rparr>)
            else c3)
      else if c = 0x0D then console\<lparr>current_col := 0\<rparr>
      else if c = 0x09 then
        (let c1 = console\<lparr>current_col := (current_col console + 8) AND NOT 7\<rparr>
         in if current_col c1 \<ge> console_cols c1 then console_putchar 0x0A c1 else c1)
      else if c = 0x08 then
        (if current_col console > 0 then
           (let c1 = console\<lparr>current_col := current_col console - 1\<rparr>
            in case get_cell c1 (current_line c1) (current_col c1) of
                 None \<Rightarrow> c1
               | Some cell \<Rightarrow>
                   c1\<lparr>buffer := (buffer c1)
                        (cell := (buffer c1 cell)
                           \<lparr>character := 0x20,
                            foreground := current_fg c1,
                            background := current_bg c1\<rparr>)\<rparr>)
         else console)
      else if c \<ge> 32 \<and> c \<le> 126 then
        (let c1 = (case get_cell console (current_line console) (current_col console) of
                     None \<Rightarrow> console
                   | Some cell \<Rightarrow>
                       console\<lparr>buffer := (buffer console)
                          (cell := (buffer console cell)
                             \<lparr>character := c,
                              foreground := current_fg console,
                              background := current_bg console,
                              attributes := 0\<rparr>)\<rparr>);
             c2 = c1\<lparr>current_col := current_col c1 + 1\<rparr>;
             c3 = c2\<lparr>total_chars := total_chars c2 + 1\<rparr>
         in if current_col c3 \<ge> console_cols c3 then console_putchar 0x0A c3 else c3)
      else console)"
  by pat_completeness auto
termination
  by (relation "measure (\<lambda>(c, console). if c = 0x0A then 0 else 1)") auto

declare console_putchar.simps [simp del]

text \<open>
  \<^verbatim>\<open>console_puts\<close> walks the string up to its terminating NUL; a string is the list
  of its bytes.
\<close>

definition console_puts ::
  "u8 list \<Rightarrow> 'a universal_console_t_scheme \<Rightarrow> 'a universal_console_t_scheme" where
  "console_puts str console = fold console_putchar (takeWhile (\<lambda>c. c \<noteq> 0) str) console"

definition console_set_color ::
  "u32 \<Rightarrow> u32 \<Rightarrow> 'a universal_console_t_scheme \<Rightarrow> 'a universal_console_t_scheme" where
  "console_set_color fg bg console = console\<lparr>current_fg := fg, current_bg := bg\<rparr>"

section \<open>Font and console rendering\<close>

text \<open>\<^verbatim>\<open>qemu_vga_font_8x16\<close> of qemu_vga_font.h: 256 * 16 bytes, every one 0xFF.\<close>

definition qemu_vga_font_8x16 :: "u8 list" where
  "qemu_vga_font_8x16 = replicate (256 * 16) 0xFF"

text \<open>\<^verbatim>\<open>get_font_char\<close>: the offset of the glyph in the table.\<close>

definition get_font_char :: "u8 \<Rightarrow> nat" where
  "get_font_char c = unat c * 16"

definition draw_char_at :: "u32 \<Rightarrow> u32 \<Rightarrow> u8 \<Rightarrow> u32 \<Rightarrow> u32 \<Rightarrow> kernel_t \<Rightarrow> kernel_t" where
  "draw_char_at x y c fg bg k =
     (if framebuffer k = 0 \<or> x + FONT_WIDTH > width k \<or> y + FONT_HEIGHT > height k then k
      else
        (let font_data = get_font_char c
         in k\<lparr>vram :=
               fold (\<lambda>row.
                       let font_row = qemu_vga_font_8x16 ! (font_data + unat row);
                           pixel_row = (y + row) * pitch k + x
                       in fold (\<lambda>col v.
                                  v(pixel_row + col :=
                                      (if font_row AND drop_bit (unat col) 0x80 \<noteq> 0
                                       then fg else bg)))
                               (range32 FONT_WIDTH))
                    (range32 FONT_HEIGHT) (vram k)\<rparr>))"

definition clear_screen :: "u32 \<Rightarrow> kernel_t \<Rightarrow> kernel_t" where
  "clear_screen color k =
     (if framebuffer k = 0 then k
      else k\<lparr>vram :=
             fold (\<lambda>y. fold (\<lambda>x v. v(y * pitch k + x := color)) (range32 (width k)))
                  (range32 (height k)) (vram k)\<rparr>)"

text \<open>
  The C library's \<^verbatim>\<open>snprintf\<close> and \<^verbatim>\<open>vsnprintf\<close> are not part of the repository.
  They are a parameter \<open>fmt\<close> of every function that formats: \<open>fmt n f args\<close> is the
  string the call leaves in a destination of \<open>n\<close> bytes. The theorems hold for every
  such function.
\<close>

datatype fmt_arg = ArgStr string | ArgInt u32

type_synonym snprintf_t = "nat \<Rightarrow> string \<Rightarrow> fmt_arg list \<Rightarrow> string"

text \<open>The bytes of a C string, up to the terminating NUL.\<close>

definition cstr :: "string \<Rightarrow> u8 list" where
  "cstr str = takeWhile (\<lambda>c. c \<noteq> 0) (map of_char str)"

definition draw_status_bar :: "snprintf_t \<Rightarrow> platform_info_t \<Rightarrow> kernel_t \<Rightarrow> kernel_t" where
  "draw_status_bar fmt cp k =
     (let status_y = height k - STATUS_BAR_HEIGHT;
          k1 = k\<lparr>vram :=
                 fold (\<lambda>y. fold (\<lambda>x v. v(y * pitch k + x := COLOR_DARK_GRAY))
                                (range32 (width k)))
                      (map of_nat [unat status_y..<unat (height k)]) (vram k)\<rparr>;
          status = cstr (fmt 256 ''%s | %dx%d | L:%d C:%d | Scroll:%d | Inputs: %s%s''
                     [ArgStr (name cp), ArgInt (width k), ArgInt (height k),
                      ArgInt (current_line k + 1), ArgInt (current_col k + 1),
                      ArgInt (scroll_position k),
                      ArgStr (if has_ps2 cp then ''PS2 '' else []),
                      ArgStr (if has_usb cp then ''USB '' else ''UART'')])
      in fold (\<lambda>i. draw_char_at (of_nat i * FONT_WIDTH) status_y (status ! i)
                       COLOR_WHITE COLOR_DARK_GRAY)
              [0..<min (length status) (unat (width k div FONT_WIDTH))] k1)"

text \<open>
  \<^verbatim>\<open>render_console\<close>. The row loop leaves at the first row whose buffer line is
  outside the buffer (\<^verbatim>\<open>break\<close>); a null cell skips the column (\<^verbatim>\<open>continue\<close>).
\<close>

definition render_console :: "snprintf_t \<Rightarrow> platform_info_t \<Rightarrow> kernel_t \<Rightarrow> kernel_t" where
  "render_console fmt cp k =
     (if framebuffer k = 0 then k
      else
        (let k1 = k\<lparr>vram :=
                   fold (\<lambda>y. fold (\<lambda>x v. v(y * pitch k + x := COLOR_BLACK))
                                  (range32 (width k)))
                        (range32 (height k - STATUS_BAR_HEIGHT)) (vram k)\<rparr>;
             k2 = fold (\<lambda>screen_row.
                     let buffer_line = display_start k + screen_row
                     in fold (\<lambda>col kk.
                          case get_cell kk buffer_line col of
                            None \<Rightarrow> kk
                          | Some cell \<Rightarrow>
                              (let x = col * FONT_WIDTH;
                                   y = screen_row * FONT_HEIGHT;
                                   cursor = (buffer_line = current_line kk
                                             \<and> col = current_col kk \<and> cursor_visible kk
                                             \<and> cursor_blink_counter kk AND 0x20 \<noteq> 0);
                                   fg = (if cursor then background (buffer kk cell)
                                         else foreground (buffer kk cell));
                                   bg = (if cursor then foreground (buffer kk cell)
                                         else background (buffer kk cell))
                               in draw_char_at x y (character (buffer kk cell)) fg bg kk))
                          (range32 (console_cols k)))
                   (takeWhile (\<lambda>screen_row. display_start k + screen_row < buffer_lines k)
                      (range32 (console_rows k))) k1
         in draw_status_bar fmt cp k2))"

section \<open>Input processing\<close>

text \<open>\<^verbatim>\<open>handle_scroll\<close>; \<open>delta\<close>, \<open>new_scroll\<close> and \<open>max_scroll\<close> are C ints.\<close>

definition handle_scroll ::
  "snprintf_t \<Rightarrow> platform_info_t \<Rightarrow> u32 \<Rightarrow> kernel_t \<Rightarrow> kernel_t" where
  "handle_scroll fmt cp delta k =
     (let new_scroll0 = scroll_position k + delta;
          new_scroll1 = (if new_scroll0 <s 0 then 0 else new_scroll0);
          max_scroll0 = current_line k - console_rows k + 1;
          max_scroll = (if max_scroll0 <s 0 then 0 else max_scroll0);
          new_scroll = (if max_scroll <s new_scroll1 then max_scroll else new_scroll1)
      in if new_scroll \<noteq> scroll_position k then
           (let k1 = k\<lparr>scroll_position := new_scroll\<rparr>;
                k2 = k1\<lparr>display_start := scroll_position k1\<rparr>
            in render_console fmt cp k2)
         else k)"

text \<open>
  A PL050 port as one poll sees it: the status and the data register.
  \<^verbatim>\<open>ps2_read_data\<close> returns the low data byte when the receive-full bit is set, else 0.
\<close>

record pl050_t =
  PL050_STAT :: u32
  PL050_DATA :: u32

definition PL050_STAT_RXFULL :: u32 where "PL050_STAT_RXFULL = 0x10"

definition ps2_read_data :: "pl050_t \<Rightarrow> u8" where
  "ps2_read_data ps2 =
     (if PL050_STAT ps2 AND PL050_STAT_RXFULL \<noteq> 0 then ucast (PL050_DATA ps2 AND 0xFF)
      else 0)"

text \<open>
  \<^verbatim>\<open>handle_mouse_input\<close>; \<open>mouse\<close> is the port at \<^verbatim>\<open>QEMU_PL050_MOUSE_BASE\<close>. The
  deltas are the packet bytes read as \<^verbatim>\<open>int8_t\<close> and promoted to \<^verbatim>\<open>int\<close>
  (\<open>scast\<close>). The write \<^verbatim>\<open>mouse_packet[packet_index++]\<close> is inside the array as long
  as the index is 0, 1 or 2.
\<close>

definition handle_mouse_input ::
  "snprintf_t \<Rightarrow> platform_info_t \<Rightarrow> pl050_t \<Rightarrow> kernel_t \<Rightarrow> kernel_t" where
  "handle_mouse_input fmt cp mouse k =
     (if platform cp \<noteq> PLATFORM_QEMU_VERSATILE then k
      else
        (let data = ps2_read_data mouse
         in if data = 0 then k
            else
              (let k1 = k\<lparr>mouse_packet := (mouse_packet k)[unat (packet_index k) := data],
                         packet_index := packet_index k + 1\<rparr>
               in if 3 \<le>s packet_index k1 then
                    (let k2 = k1\<lparr>packet_index := 0\<rparr>;
                         buttons = mouse_packet k2 ! 0;
                         delta_x = (scast (mouse_packet k2 ! 1) :: u32);
                         delta_y = (scast (mouse_packet k2 ! 2) :: u32);
                         k3 = k2\<lparr>mouse_x := mouse_x k2 + delta_x\<rparr>;
                         k4 = k3\<lparr>mouse_y := mouse_y k3 - delta_y\<rparr>;
                         k5 = (if mouse_x k4 <s 0 then k4\<lparr>mouse_x := 0\<rparr> else k4);
                         k6 = (if mouse_y k5 <s 0 then k5\<lparr>mouse_y := 0\<rparr> else k5);
                         k7 = (if width k6 \<le>s mouse_x k6
                               then k6\<lparr>mouse_x := width k6 - 1\<rparr> else k6);
                         k8 = (if height k7 \<le>s mouse_y k7
                               then k7\<lparr>mouse_y := height k7 - 1\<rparr> else k7);
                         k9 = (if buttons AND 0x02 \<noteq> 0 then
                                 (if delta_y \<noteq> 0
                                  then handle_scroll fmt cp
                                         (if 0 <s delta_y then 3 else - 3) k8
                                  else k8)
                               else k8)
                     in k9\<lparr>mouse_buttons := buttons\<rparr>)
                  else k1)))"

text \<open>\<^verbatim>\<open>handle_keyboard_input\<close>; \<open>kbd\<close> is the port at \<^verbatim>\<open>QEMU_PL050_KBD_BASE\<close>.\<close>

definition handle_keyboard_input ::
  "snprintf_t \<Rightarrow> platform_info_t \<Rightarrow> pl050_t \<Rightarrow> kernel_t \<Rightarrow> kernel_t" where
  "handle_keyboard_input fmt cp kbd k =
     (if platform cp \<noteq> PLATFORM_QEMU_VERSATILE then k
      else
        (let scancode = ps2_read_data kbd
         in if scancode = 0 then k
            else if scancode = 0x48 then handle_scroll fmt cp (- 1) k
            else if scancode = 0x50 then handle_scroll fmt cp 1 k
            else if scancode = 0x49 then handle_scroll fmt cp (- console_rows k) k
            else if scancode = 0x51 then handle_scroll fmt cp (console_rows k) k
            else if scancode = 0x47 then
              render_console fmt cp (k\<lparr>scroll_position := 0, display_start := 0\<rparr>)
            else if scancode = 0x4F then
              (let k1 = k\<lparr>scroll_position := current_line k\<rparr>;
                   k2 = k1\<lparr>display_start :=
                             (if current_line k1 \<ge> console_rows k1
                              then current_line k1 - console_rows k1 + 1 else 0)\<rparr>
               in render_console fmt cp k2)
            else k))"

section \<open>Main console interface\<close>

text \<open>
  \<^verbatim>\<open>init_ps2_devices\<close>. \<^verbatim>\<open>ps2_write_data\<close> busy-waits while the transmitter is busy
  and then stores the byte in the device; \<open>tx_idle\<close> says whether the waits end. On any
  other platform the function returns at once.
\<close>

definition init_ps2_devices :: "bool \<Rightarrow> platform_info_t \<Rightarrow> kernel_t \<Rightarrow> kernel_t option" where
  "init_ps2_devices tx_idle cp k =
     (if platform cp \<noteq> PLATFORM_QEMU_VERSATILE then Some k
      else if \<not> tx_idle then None
      else Some (k\<lparr>mouse_available := True, keyboard_available := True\<rparr>))"

definition console_printf ::
  "snprintf_t \<Rightarrow> string \<Rightarrow> fmt_arg list \<Rightarrow> kernel_t \<Rightarrow> kernel_t" where
  "console_printf fmt f args k = console_puts (cstr (fmt 1024 f args)) k"

text \<open>The hardware a boot meets: the bus, the firmware and the PS/2 transmitter.\<close>

record hw_t =
  hw_mem :: "u32 \<Rightarrow> u32"
  hw_gpu :: gpu_t
  hw_ps2_tx_idle :: bool

text \<open>
  \<^verbatim>\<open>universal_console_init\<close>. The result is \<open>None\<close> when a busy-wait never ends,
  otherwise the return value with the two globals.
\<close>

definition universal_console_init ::
  "hw_t \<Rightarrow> snprintf_t \<Rightarrow> platform_info_t \<Rightarrow> kernel_t
     \<Rightarrow> (int \<times> platform_info_t \<times> kernel_t) option" where
  "universal_console_init hw fmt cp0 k0 =
     (let (p, cp1) = detect_platform (hw_mem hw) cp0;
          cp = cp1\<lparr>platform := p\<rparr>
      in case detect_display_resolution (hw_gpu hw) cp of
           None \<Rightarrow> None
         | Some (rc, w0, h0) \<Rightarrow>
             (let (w, h) =
                    (if rc \<noteq> 0 then
                       (case platform cp of
                          PLATFORM_PI_BCM2711 \<Rightarrow> (1920, 1080)
                        | PLATFORM_PI_BCM2837 \<Rightarrow> (1680, 1050)
                        | PLATFORM_PI_BCM2837B0 \<Rightarrow> (1680, 1050)
                        | PLATFORM_PI_BCM2836 \<Rightarrow> (1280, 1024)
                        | PLATFORM_QEMU_VERSATILE \<Rightarrow> (640, 480)
                        | _ \<Rightarrow> (1024, 768))
                     else (w0, h0))
              in case setup_framebuffer (hw_gpu hw) cp w h k0 of
                   None \<Rightarrow> None
                 | Some (rc1, k1) \<Rightarrow>
                     if rc1 \<noteq> 0 then Some (- 1, cp, k1)
                     else
                       (case init_ps2_devices (hw_ps2_tx_idle hw) cp k1 of
                          None \<Rightarrow> None
                        | Some k2 \<Rightarrow>
                            (let (rc2, k3) = init_console_buffer k2
                             in if rc2 \<noteq> 0 then Some (- 1, cp, k3)
                                else
                                  Some (0, cp,
                                    fold (\<lambda>step. step)
                                      [clear_screen COLOR_BLACK,
                                       console_set_color COLOR_YELLOW COLOR_BLACK,
                                       console_puts (cstr ''CORRECTED Universal Pi Console\<newline>''),
                                       console_puts (cstr ''==============================\<newline>\<newline>''),
                                       console_set_color COLOR_CYAN COLOR_BLACK,
                                       console_printf fmt ''Platform: %s\<newline>'' [ArgStr (name cp)],
                                       console_printf fmt ''Peripheral Base: 0x%08X\<newline>''
                                         [ArgInt (peripheral_base cp)],
                                       console_printf fmt ''Display: %dx%d (%d x %d chars)\<newline>''
                                         [ArgInt (width k3), ArgInt (height k3),
                                          ArgInt (console_cols k3), ArgInt (console_rows k3)],
                                       console_set_color COLOR_WHITE COLOR_BLACK,
                                       console_puts (cstr ''\<newline>Supported Models:\<newline>''),
                                       console_puts (cstr ''- Pi 1 A/A+/B/B+ (BCM2835)\<newline>''),
                                       console_puts (cstr ''- Pi Zero/Zero W (BCM2835)\<newline>''),
                                       console_puts (cstr ''- Pi 2 (BCM2836)\<newline>''),
                                       console_puts (cstr ''- Pi 3/3A+/3B+ (BCM2837/B0)\<newline>''),
                                       console_puts (cstr ''- Pi Zero 2 W (RP3A0/BCM2837)\<newline>''),
                                       console_puts (cstr ''- Pi 4/400 (BCM2711)\<newline>''),
                                       console_puts (cstr ''- QEMU versatilepb\<newline>''),
                                       console_puts (cstr ''\<newline>Input Support:\<newline>''),
                                       (if has_ps2 cp then
                                          (\<lambda>k. console_puts (cstr ''- Right-click + drag to scroll\<newline>'')
                                                (console_puts (cstr ''- Arrow keys, Page Up/Down, Home/End\<newline>'')
                                                  (console_puts (cstr ''- PS/2 Keyboard and Mouse\<newline>'') k)))
                                        else (\<lambda>k. k)),
                                       (if has_usb cp then
                                          console_puts (cstr ''- USB devices supported\<newline>'')
                                        else (\<lambda>k. k)),
                                       console_puts (cstr ''- UART console always available\<newline>''),
                                       console_set_color COLOR_GREEN COLOR_BLACK,
                                       console_puts (cstr ''\<newline>Hardware-specific console ready!\<newline>\<newline>''),
                                       console_set_color COLOR_WHITE COLOR_BLACK]
                                      k3)))))"

text \<open>\<^verbatim>\<open>console_update\<close>, one tick: the two ports as this tick's polls see them.\<close>

definition console_update ::
  "snprintf_t \<Rightarrow> platform_info_t \<Rightarrow> pl050_t \<Rightarrow> pl050_t \<Rightarrow> kernel_t \<Rightarrow> kernel_t" where
  "console_update fmt cp kbd mouse k =
     (let k1 = handle_keyboard_input fmt cp kbd k;
          k2 = handle_mouse_input fmt cp mouse k1;
          k3 = k2\<lparr>cursor_blink_counter := cursor_blink_counter k2 + 1\<rparr>
      in render_console fmt cp k3)"

text \<open>
  The memory at program start: \<^verbatim>\<open>current_platform\<close>, \<^verbatim>\<open>console\<close>,
  \<^verbatim>\<open>static_buffer\<close> and the statics of the functions are zero-initialised. The
  pixels are taken as zero too; they are written before they are shown.
\<close>

definition current_platform0 :: platform_info_t where
  "current_platform0 =
     \<lparr>platform = PLATFORM_UNKNOWN, peripheral_base = 0, mailbox_base = 0, gpio_base = 0,
      uart_base = 0, usb_base = 0, name = [], has_usb = False, has_ps2 = False\<rparr>"

definition zero_cell :: console_cell_t where
  "zero_cell = \<lparr>character = 0, foreground = 0, background = 0, attributes = 0\<rparr>"

definition console0 :: kernel_t where
  "console0 =
     \<lparr>framebuffer = 0, width = 0, height = 0, pitch = 0, console_cols = 0, console_rows = 0,
      buffer = (\<lambda>i. zero_cell), buffer_lines = 0, current_line = 0, current_col = 0,
      display_start = 0, current_fg = 0, current_bg = 0, cursor_visible = False,
      cursor_blink_counter = 0, mouse_x = 0, mouse_y = 0, mouse_buttons = 0,
      mouse_available = False, keyboard_available = False, total_chars = 0,
      scroll_position = 0,
      vram = (\<lambda>i. 0), mouse_packet = [0, 0, 0], packet_index = 0\<rparr>"

section \<open>Notions used in the statements and proofs\<close>

text \<open>The request block \<^verbatim>\<open>setup_framebuffer\<close> hands to the firmware.\<close>

definition fb_call :: "u32 \<Rightarrow> u32 \<Rightarrow> display_request_t" where
  "fb_call w h = fb_request_init\<lparr>set_width := w, set_height := h,
                                 virtual_width := w, virtual_height := h\<rparr>"

text \<open>The newline case of \<^verbatim>\<open>console_putchar\<close>, as one state transformer.\<close>

definition newline :: "'a universal_console_t_scheme \<Rightarrow> 'a universal_console_t_scheme" where
  "newline s =
     (let c3 = (if buffer_lines s \<le> current_line s + 1
                then (scroll_buffer_up (s\<lparr>current_col := 0, current_line := current_line s + 1\<rparr>))
                       \<lparr>current_line := buffer_lines s - 1\<rparr>
                else s\<lparr>current_col := 0, current_line := current_line s + 1\<rparr>)
      in if display_start c3 + console_rows c3 \<le> current_line c3
         then c3\<lparr>display_start := current_line c3 - console_rows c3 + 1,
                 scroll_position := current_line c3 - console_rows c3 + 1\<rparr>
         else c3)"

text \<open>The cell writes of the default and of the backspace case.\<close>

definition put_cell ::
  "u8 \<Rightarrow> 'a universal_console_t_scheme \<Rightarrow> 'a universal_console_t_scheme" where
  "put_cell c s =
     (case get_cell s (current_line s) (current_col s) of
        None \<Rightarrow> s
      | Some cell \<Rightarrow>
          s\<lparr>buffer := (buffer s)
               (cell := (buffer s cell)
                  \<lparr>character := c, foreground := current_fg s,
                   background := current_bg s, attributes := 0\<rparr>)\<rparr>)"

definition blank_cell ::
  "'a universal_console_t_scheme \<Rightarrow> 'a universal_console_t_scheme" where
  "blank_cell s =
     (case get_cell s (current_line s) (current_col s) of
        None \<Rightarrow> s
      | Some cell \<Rightarrow>
          s\<lparr>buffer := (buffer s)
               (cell := (buffer s cell)
                  \<lparr>character := 0x20, foreground := current_fg s,
                   background := current_bg s\<rparr>)\<rparr>)"

text \<open>Two states agree on the geometry, the cursor line, the scroll window and the colours.\<close>

definition same_view ::
  "'a universal_console_t_scheme \<Rightarrow> 'a universal_console_t_scheme \<Rightarrow> bool" where
  "same_view s1 s \<longleftrightarrow>
     console_rows s1 = console_rows s \<and> buffer_lines s1 = buffer_lines s
     \<and> current_line s1 = current_line s \<and> display_start s1 = display_start s
     \<and> scroll_position s1 = scroll_position s \<and> console_cols s1 = console_cols s
     \<and> current_fg s1 = current_fg s \<and> current_bg s1 = current_bg s"

text \<open>
  The state of a console that only ever follows its cursor: the window starts
  \<open>console_rows - 1\<close> lines above the cursor, or at line 0 while the cursor is higher.
\<close>

definition follow_inv :: "'a universal_console_t_scheme \<Rightarrow> bool" where
  "follow_inv s \<longleftrightarrow>
     buffer_lines s = MAX_BUFFER_LINES \<and> current_line s < buffer_lines s
     \<and> 0 < console_rows s
     \<and> unat (display_start s) = unat (current_line s) + 1 - unat (console_rows s)
     \<and> scroll_position s = display_start s"

subsection \<open>Fixtures\<close>

text \<open>
  A bus on which only the BCM2836/2837 mailbox status register answers, one on which
  the BCM2711 mailbox does, and one with the PL050 keyboard controller of the emulator.
\<close>

definition mem_pi2 :: "u32 \<Rightarrow> u32" where
  "mem_pi2 = (\<lambda>a. 0)(0x3F00B898 := 0x40000000)"

definition mem_pi4 :: "u32 \<Rightarrow> u32" where
  "mem_pi4 = (\<lambda>a. 0)(0xFE00B898 := 0x40000000)"

definition mem_qemu :: "u32 \<Rightarrow> u32" where
  "mem_qemu = (\<lambda>a. 0)(0x10007004 := 0x40)"

definition pi1_profile :: platform_info_t where
  "pi1_profile = snd (detect_platform (\<lambda>a. 0) current_platform0)"

definition pi4_profile :: platform_info_t where
  "pi4_profile = snd (detect_platform mem_pi4 current_platform0)"

definition qemu_profile :: platform_info_t where
  "qemu_profile = snd (detect_platform mem_qemu current_platform0)"

text \<open>A firmware that grants every request and puts the buffer at the given address.\<close>

definition gpu_grants :: "u32 \<Rightarrow> gpu_t" where
  "gpu_grants a req = Some (req\<lparr>req_code := 0x80000000, fb_address := a,
                                req_pitch := 4 * set_width req\<rparr>)"

text \<open>The console of the emulator after \<^verbatim>\<open>setup_framebuffer(640, 480)\<close>.\<close>

definition console_qemu :: kernel_t where
  "console_qemu = console0\<lparr>framebuffer := 0x200000, width := 640, height := 480,
                           pitch := 640, console_cols := 80, console_rows := 29\<rparr>"

text \<open>The cell \<^verbatim>\<open>scroll_buffer_up\<close> leaves in the last line.\<close>

definition cleared_cell :: "'a universal_console_t_scheme \<Rightarrow> console_cell_t" where
  "cleared_cell s = \<lparr>character = 0x20, foreground = current_fg s,
                     background = current_bg s, attributes = 0\<rparr>"

text \<open>Writing \<open>n\<close> newline characters through \<^verbatim>\<open>console_putchar\<close>.\<close>

definition newlines :: "nat \<Rightarrow> 'a universal_console_t_scheme \<Rightarrow> 'a universal_console_t_scheme" where
  "newlines n s = fold console_putchar (replicate n 0x0A) s"


text \<open>Two kernel states that differ in the pixels only.\<close>

definition same_console :: "kernel_t \<Rightarrow> kernel_t \<Rightarrow> bool" where
  "same_console k1 k \<longleftrightarrow> k1 = k\<lparr>vram := vram k1\<rparr>"

text \<open>The value \<^verbatim>\<open>new_scroll\<close> has in \<^verbatim>\<open>handle_scroll\<close> after the two clamps.\<close>

definition scroll_target :: "u32 \<Rightarrow> 'a universal_console_t_scheme \<Rightarrow> u32" where
  "scroll_target delta k =
     (let new_scroll0 = scroll_position k + delta;
          new_scroll1 = (if new_scroll0 <s 0 then 0 else new_scroll0);
          max_scroll0 = current_line k - console_rows k + 1;
          max_scroll = (if max_scroll0 <s 0 then 0 else max_scroll0)
      in if max_scroll <s new_scroll1 then max_scroll else new_scroll1)"

text \<open>
  The states the console is in after \<^verbatim>\<open>universal_console_init\<close> has succeeded,
  whatever is written and whichever keys and mouse packets arrive: the buffer has its
  3000 lines, the cursor is on one of them, the console has between 1 and 0x0FFFFFFF
  rows, and the scroll position is not beyond the cursor line; the window starts at the
  scroll position, or (after the End key) the window is the last one and the scroll
  position lies below its start.
\<close>

definition console_inv :: "'a universal_console_t_scheme \<Rightarrow> bool" where
  "console_inv s \<longleftrightarrow>
     buffer_lines s = MAX_BUFFER_LINES \<and> current_line s < buffer_lines s
     \<and> 0 < console_rows s \<and> console_rows s \<le> 0x0FFFFFFF
     \<and> scroll_position s \<le> current_line s
     \<and> (display_start s = scroll_position s
        \<or> (display_start s < scroll_position s
           \<and> unat (current_line s) + 1 - unat (console_rows s) \<le> unat (display_start s)))"

text \<open>A formatter for the fixtures: it copies the format string and drops the arguments.\<close>

definition no_format :: snprintf_t where
  "no_format n f args = take (n - 1) f"

text \<open>The emulator console after 2500 newlines.\<close>

definition console_2500 :: kernel_t where
  "console_2500 =
     fold console_putchar (replicate 2500 0x0A) (snd (init_console_buffer console_qemu))"

text \<open>
  The two clamps \<^verbatim>\<open>handle_mouse_input\<close> applies to one coordinate, in the order of
  the code: below zero first, then at or beyond the limit.
\<close>

definition clamp_coord :: "u32 \<Rightarrow> u32 \<Rightarrow> u32" where
  "clamp_coord v limit =
     (let v1 = (if v <s 0 then 0 else v) in if limit \<le>s v1 then limit - 1 else v1)"

text \<open>
  The emulator console with two bytes of a mouse packet received, and the port holding
  the third byte 0xFD (-3).
\<close>

definition console_two_bytes :: kernel_t where
  "console_two_bytes = console_qemu\<lparr>mouse_packet := [0x08, 0x05, 0x00], packet_index := 2\<rparr>"

definition port_fd :: pl050_t where
  "port_fd = \<lparr>PL050_STAT = 0x10, PL050_DATA = 0xFD\<rparr>"

text \<open>
  The mouse port holding a received byte, and the handler polled once per received byte
  on the emulator.
\<close>

definition port_byte :: "u8 \<Rightarrow> pl050_t" where
  "port_byte b = \<lparr>PL050_STAT = PL050_STAT_RXFULL, PL050_DATA = ucast b\<rparr>"

definition mouse_polls :: "u8 list \<Rightarrow> kernel_t \<Rightarrow> kernel_t" where
  "mouse_polls bs k = fold (\<lambda>b. handle_mouse_input no_format qemu_profile (port_byte b)) bs k"

text \<open>Keyboard ports holding the scancodes of Home and End.\<close>

definition port_home :: pl050_t where
  "port_home = \<lparr>PL050_STAT = 0x10, PL050_DATA = 0x47\<rparr>"

definition port_end :: pl050_t where
  "port_end = \<lparr>PL050_STAT = 0x10, PL050_DATA = 0x4F\<rparr>"

text \<open>
  Two machines a boot can meet. On the first no probe answers (the detector falls back
  to BCM2835) and the firmware answers every property block with the error code
  0x80000001; the second is the emulator, where the mailbox is never called.
\<close>

definition hw_refusing :: hw_t where
  "hw_refusing = \<lparr>hw_mem = (\<lambda>a. 0),
                   hw_gpu = (\<lambda>req. Some (req\<lparr>req_code := 0x80000001\<rparr>)),
                   hw_ps2_tx_idle = True\<rparr>"

definition hw_qemu :: hw_t where
  "hw_qemu = \<lparr>hw_mem = mem_qemu, hw_gpu = (\<lambda>req. None), hw_ps2_tx_idle = True\<rparr>"

text \<open>
  The two stages of \<^verbatim>\<open>universal_console_init\<close> around \<^verbatim>\<open>setup_framebuffer\<close>: the
  resolution it passes on (the detected one, or the fallback of the platform when
  \<^verbatim>\<open>detect_display_resolution\<close> returned non-zero), and the banner it prints.
\<close>

definition init_resolution :: "gpu_t \<Rightarrow> platform_info_t \<Rightarrow> (u32 \<times> u32) option" where
  "init_resolution gpu cp =
     (case detect_display_resolution gpu cp of
        None \<Rightarrow> None
      | Some (rc, w0, h0) \<Rightarrow>
          Some (if rc \<noteq> 0 then
                  (case platform cp of
                     PLATFORM_PI_BCM2711 \<Rightarrow> (1920, 1080)
                   | PLATFORM_PI_BCM2837 \<Rightarrow> (1680, 1050)
                   | PLATFORM_PI_BCM2837B0 \<Rightarrow> (1680, 1050)
                   | PLATFORM_PI_BCM2836 \<Rightarrow> (1280, 1024)
                   | PLATFORM_QEMU_VERSATILE \<Rightarrow> (640, 480)
                   | _ \<Rightarrow> (1024, 768))
                else (w0, h0)))"

definition init_banner :: "snprintf_t \<Rightarrow> platform_info_t \<Rightarrow> kernel_t \<Rightarrow> kernel_t" where
  "init_banner fmt cp k3 =
     fold (\<lambda>step. step)
       [clear_screen COLOR_BLACK,
        console_set_color COLOR_YELLOW COLOR_BLACK,
        console_puts (cstr ''CORRECTED Universal Pi Console\<newline>''),
        console_puts (cstr ''==============================\<newline>\<newline>''),
        console_set_color COLOR_CYAN COLOR_BLACK,
        console_printf fmt ''Platform: %s\<newline>'' [ArgStr (name cp)],
        console_printf fmt ''Peripheral Base: 0x%08X\<newline>''
          [ArgInt (peripheral_base cp)],
        console_printf fmt ''Display: %dx%d (%d x %d chars)\<newline>''
          [ArgInt (width k3), ArgInt (height k3),
           ArgInt (console_cols k3), ArgInt (console_rows k3)],
        console_set_color COLOR_WHITE COLOR_BLACK,
        console_puts (cstr ''\<newline>Supported Models:\<newline>''),
        console_puts (cstr ''- Pi 1 A/A+/B/B+ (BCM2835)\<newline>''),
        console_puts (cstr ''- Pi Zero/Zero W (BCM2835)\<newline>''),
        console_puts (cstr ''- Pi 2 (BCM2836)\<newline>''),
        console_puts (cstr ''- Pi 3/3A+/3B+ (BCM2837/B0)\<newline>''),
        console_puts (cstr ''- Pi Zero 2 W (RP3A0/BCM2837)\<newline>''),
        console_puts (cstr ''- Pi 4/400 (BCM2711)\<newline>''),
        console_puts (cstr ''- QEMU versatilepb\<newline>''),
        console_puts (cstr ''\<newline>Input Support:\<newline>''),
        (if has_ps2 cp then
           (\<lambda>k. console_puts (cstr ''- Right-click + drag to scroll\<newline>'')
                 (console_puts (cstr ''- Arrow keys, Page Up/Down, Home/End\<newline>'')
                   (console_puts (cstr ''- PS/2 Keyboard and Mouse\<newline>'') k)))
         else (\<lambda>k. k)),
        (if has_usb cp then
           console_puts (cstr ''- USB devices supported\<newline>'')
         else (\<lambda>k. k)),
        console_puts (cstr ''- UART console always available\<newline>''),
        console_set_color COLOR_GREEN COLOR_BLACK,
        console_puts (cstr ''\<newline>Hardware-specific console ready!\<newline>\<newline>''),
        console_set_color COLOR_WHITE COLOR_BLACK]
       k3"

section \<open>Platform detection: the sub-revision probe\<close>

lemma detect_platform_fixtures:
  "platform pi1_profile = PLATFORM_PI_BCM2835"
  "mailbox_base pi1_profile = 0x2000B880"
  "platform pi4_profile = PLATFORM_PI_BCM2711"
  "mailbox_base pi4_profile = 0xFE00B880"
  "platform qemu_profile = PLATFORM_QEMU_VERSATILE"
  by (simp_all add: pi1_profile_def pi4_profile_def qemu_profile_def detect_platform_def
      safe_peek32_def mem_pi4_def mem_qemu_def hw_consts Let_def)

text \<open>
  C4. In the BCM2836/BCM2837 branch (the emulator and the BCM2711 probes have not
  claimed the platform, the mailbox probe at 0x3F00B898 has answered), the detector
  returns BCM2837 when the ARM timer probe succeeds and BCM2836 when it fails; the
  returned discriminant is the one stored in \<^verbatim>\<open>current_platform\<close>.
\<close>

theorem detect_platform_subrevision:
  assumes "\<not> (snd (safe_peek32 mem (QEMU_PL050_KBD_BASE + 0x04))
              \<and> fst (safe_peek32 mem (QEMU_PL050_KBD_BASE + 0x04)) AND 0xFF \<noteq> 0xFF)"
    and "\<not> snd (safe_peek32 mem (BCM2711_PERIPHERAL_BASE + MAILBOX_OFFSET + 0x18))"
    and "snd (safe_peek32 mem (BCM2836_PERIPHERAL_BASE + MAILBOX_OFFSET + 0x18))"
  shows "fst (detect_platform mem cp) =
           (if snd (safe_peek32 mem (BCM2836_PERIPHERAL_BASE + 0x40000))
            then PLATFORM_PI_BCM2837 else PLATFORM_PI_BCM2836)
         \<and> platform (snd (detect_platform mem cp)) = fst (detect_platform mem cp)"
  using assms by (simp add: detect_platform_def Let_def case_prod_beta)

theorem detect_platform_subrevision_witness:
  "fst (detect_platform mem_pi2 current_platform0) = PLATFORM_PI_BCM2836
   \<and> platform (snd (detect_platform mem_pi2 current_platform0)) = PLATFORM_PI_BCM2836"
  using detect_platform_subrevision [of mem_pi2 current_platform0]
  by (simp add: safe_peek32_def mem_pi2_def hw_consts)

text \<open>
  The claim as stated fails on the bus \<open>mem_pi2\<close>: the family probe answers, the timer
  probe does not, and the detector does not return BCM2837.
\<close>

theorem detect_platform_probe_fails_counterexample:
  "snd (safe_peek32 mem_pi2 (BCM2836_PERIPHERAL_BASE + MAILBOX_OFFSET + 0x18))
   \<and> \<not> snd (safe_peek32 mem_pi2 (BCM2836_PERIPHERAL_BASE + 0x40000))
   \<and> fst (detect_platform mem_pi2 current_platform0) \<noteq> PLATFORM_PI_BCM2837"
  by (simp add: detect_platform_def safe_peek32_def mem_pi2_def hw_consts Let_def)

section \<open>Framebuffer setup\<close>

lemma setup_framebuffer_firmware:
  assumes "mailbox_available cp" and "gpu (fb_call w h) = Some r"
    and "req_code r = 0x80000000"
  shows "setup_framebuffer gpu cp w h console =
     Some (0, console\<lparr>framebuffer :=
                 (case platform cp of
                    PLATFORM_PI_BCM2835 \<Rightarrow> fb_address r AND 0x3FFFFFFF
                  | PLATFORM_PI_BCM2836 \<Rightarrow> fb_address r AND 0x3FFFFFFF
                  | PLATFORM_PI_BCM2837 \<Rightarrow> fb_address r AND 0x3FFFFFFF
                  | PLATFORM_PI_BCM2837B0 \<Rightarrow> fb_address r AND 0x3FFFFFFF
                  | PLATFORM_PI_BCM2711 \<Rightarrow>
                      (if fb_address r \<ge> 0xC0000000 then fb_address r - 0xC0000000
                       else fb_address r)
                  | _ \<Rightarrow> fb_address r),
               width := set_width r,
               height := set_height r,
               pitch := req_pitch r div 4,
               console_cols := max MIN_CONSOLE_COLS (set_width r div FONT_WIDTH),
               console_rows :=
                 max MIN_CONSOLE_ROWS ((set_height r - STATUS_BAR_HEIGHT) div FONT_HEIGHT)\<rparr>)"
  using assms
  by (simp add: setup_framebuffer_def mailbox_available_def fb_call_def Let_def max_def not_less)

lemma setup_framebuffer_qemu:
  assumes "platform cp = PLATFORM_QEMU_VERSATILE"
  shows "setup_framebuffer gpu cp w h console =
     Some (0, console\<lparr>framebuffer := 0x200000, width := w, height := h, pitch := w,
               console_cols := w div FONT_WIDTH,
               console_rows := (h - STATUS_BAR_HEIGHT) div FONT_HEIGHT\<rparr>)"
  using assms by (simp add: setup_framebuffer_def Let_def)

lemma setup_framebuffer_success:
  assumes "setup_framebuffer gpu cp w h console = Some (0, c)"
  shows "platform cp = PLATFORM_QEMU_VERSATILE
         \<or> (mailbox_available cp
            \<and> (\<exists>r. gpu (fb_call w h) = Some r \<and> req_code r = 0x80000000))"
  using assms
  by (auto simp: setup_framebuffer_def fb_call_def Let_def split: if_splits option.splits)

lemma setup_framebuffer_console_qemu:
  "setup_framebuffer gpu qemu_profile 640 480 console0 = Some (0, console_qemu)"
  by (simp add: setup_framebuffer_qemu detect_platform_fixtures console_qemu_def
      console_consts)

text \<open>
  C2. When the firmware grants the request (response code 0x80000000), the address kept
  in \<^verbatim>\<open>console.framebuffer\<close> is, on BCM2711, the firmware's address less 0xC0000000
  if and only if that address is at or above 0xC0000000, and the address unchanged
  otherwise; on BCM2835, BCM2836, BCM2837 and BCM2837B0 it is the firmware's address
  AND 0x3FFFFFFF.
\<close>

theorem setup_framebuffer_address_translation:
  assumes "mailbox_available cp" and "gpu (fb_call w h) = Some r"
    and "req_code r = 0x80000000"
  shows "(platform cp = PLATFORM_PI_BCM2711 \<longrightarrow>
            map_option (\<lambda>(rc, c). (rc, framebuffer c)) (setup_framebuffer gpu cp w h console)
              = Some (0, if fb_address r \<ge> 0xC0000000 then fb_address r - 0xC0000000
                         else fb_address r))
       \<and> (platform cp \<in> {PLATFORM_PI_BCM2835, PLATFORM_PI_BCM2836, PLATFORM_PI_BCM2837,
                           PLATFORM_PI_BCM2837B0} \<longrightarrow>
            map_option (\<lambda>(rc, c). (rc, framebuffer c)) (setup_framebuffer gpu cp w h console)
              = Some (0, fb_address r AND 0x3FFFFFFF))"
  using assms by (auto simp: setup_framebuffer_firmware [of cp gpu w h r])

theorem setup_framebuffer_address_translation_witness:
  "map_option (\<lambda>(rc, c). (rc, framebuffer c))
     (setup_framebuffer (gpu_grants 0xC0012340) pi4_profile 1920 1080 console0)
     = Some (0, 0x00012340)
   \<and> map_option (\<lambda>(rc, c). (rc, framebuffer c))
     (setup_framebuffer (gpu_grants 0x40012340) pi1_profile 1024 768 console0)
     = Some (0, 0x00012340)
   \<and> map_option (\<lambda>(rc, c). (rc, framebuffer c))
     (setup_framebuffer (gpu_grants 0x3C100000) pi4_profile 1920 1080 console0)
     = Some (0, 0x3C100000)"
  using setup_framebuffer_address_translation
          [of pi4_profile "gpu_grants 0xC0012340" 1920 1080 _ console0]
        setup_framebuffer_address_translation
          [of pi1_profile "gpu_grants 0x40012340" 1024 768 _ console0]
        setup_framebuffer_address_translation
          [of pi4_profile "gpu_grants 0x3C100000" 1920 1080 _ console0]
  by (simp add: mailbox_available_def detect_platform_fixtures gpu_grants_def)

text \<open>
  The rows of the firmware path, \<open>(height - 16) / 16\<close> raised to 15, read as integers:
  for a height of at least 16 they are what the formula says; for a smaller height the
  unsigned subtraction wraps and the result is 0x0FFFFFFF, whatever the height.
\<close>

lemma firmware_rows_tall:
  assumes "16 \<le> (h :: u32)"
  shows "uint (max MIN_CONSOLE_ROWS ((h - STATUS_BAR_HEIGHT) div FONT_HEIGHT))
           = max 15 ((uint h - 16) div 16)"
proof -
  have "uint (h - 16) = uint h - 16"
    using assms by (simp add: uint_minus_simple_alt)
  then have d: "uint ((h - 16) div 16) = (uint h - 16) div 16"
    by (simp add: uint_div)
  have "uint (max 15 ((h - 16) div 16)) = max 15 (uint ((h - 16) div 16))"
    by (simp add: max_def word_le_def)
  then show ?thesis by (simp add: d console_consts)
qed

lemma firmware_rows_short:
  assumes "(h :: u32) < 16"
  shows "max MIN_CONSOLE_ROWS ((h - STATUS_BAR_HEIGHT) div FONT_HEIGHT) = 0x0FFFFFFF"
proof -
  from assms have h: "unat h < 16" by (simp add: word_less_nat_alt)
  have "unat (h - 16) = unat h + 4294967280"
    using h by (simp add: unat_sub_if' word_le_nat_alt)
  with h have "unat ((h - 16) div 16) = 268435455" by (simp add: unat_div)
  then have "(h - 16) div 16 = 0x0FFFFFFF" by (simp add: word_unat_eq_iff)
  then show ?thesis by (simp add: console_consts)
qed

lemma setup_framebuffer_dimensions:
  assumes "setup_framebuffer gpu cp w h console = Some (0, c)"
    and "platform cp \<noteq> PLATFORM_QEMU_VERSATILE"
  shows "uint (console_cols c) = max 40 (uint (width c) div 8)"
    and "16 \<le> height c \<Longrightarrow> uint (console_rows c) = max 15 ((uint (height c) - 16) div 16)"
    and "height c < 16 \<Longrightarrow> console_rows c = 0x0FFFFFFF"
proof -
  from setup_framebuffer_success [OF assms(1)] assms(2)
  obtain r where r: "mailbox_available cp" "gpu (fb_call w h) = Some r"
    "req_code r = 0x80000000" by blast
  from assms(1) have "c = snd (the (setup_framebuffer gpu cp w h console))" by simp
  then have f: "width c = set_width r" "height c = set_height r"
    "console_cols c = max MIN_CONSOLE_COLS (set_width r div FONT_WIDTH)"
    "console_rows c = max MIN_CONSOLE_ROWS ((set_height r - STATUS_BAR_HEIGHT) div FONT_HEIGHT)"
    by (simp_all add: setup_framebuffer_firmware [of cp gpu w h r] r)
  have "uint (max 40 (set_width r div 8)) = max 40 (uint (set_width r div 8))"
    by (simp add: max_def word_le_def)
  then show "uint (console_cols c) = max 40 (uint (width c) div 8)"
    by (simp add: f console_consts uint_div)
  show "uint (console_rows c) = max 15 ((uint (height c) - 16) div 16)" if "16 \<le> height c"
    using that firmware_rows_tall [of "set_height r"] by (simp add: f)
  show "console_rows c = 0x0FFFFFFF" if "height c < 16"
    using that firmware_rows_short [of "set_height r"] by (simp add: f)
qed

text \<open>
  C8. On the emulator \<^verbatim>\<open>setup_framebuffer\<close> is called with 640 x 480 and gives 80
  columns and 29 rows; on a firmware profile the columns are \<open>width / 8\<close> raised to 40,
  and the rows are \<open>(height - 16) / 16\<close> raised to 15 when the height is at least 16.
  For a smaller height the minimum is missed: when the firmware grants 320 x 8,
  \<^verbatim>\<open>console.height - STATUS_BAR_HEIGHT\<close> wraps to 0xFFFFFFF8, the test
  \<^verbatim>\<open>console_rows < MIN_CONSOLE_ROWS\<close> does not fire, and the console has 0x0FFFFFFF rows
  where 15 were to be ensured.
\<close>

theorem setup_framebuffer_short_display:
  "setup_framebuffer (gpu_grants 0xC0012340) pi4_profile 320 8 console0
     = Some (0, console0\<lparr>framebuffer := 0x12340, width := 320, height := 8, pitch := 320,
                        console_cols := 40, console_rows := 0x0FFFFFFF\<rparr>)"
  by (simp add: setup_framebuffer_firmware [of pi4_profile "gpu_grants 0xC0012340" 320 8]
      mailbox_available_def detect_platform_fixtures gpu_grants_def fb_call_def
      console_consts)

section \<open>Console output: the newline and the other characters\<close>

lemma scroll_buffer_up_fields [simp]:
  "console_cols (scroll_buffer_up s) = console_cols s"
  "console_rows (scroll_buffer_up s) = console_rows s"
  "buffer_lines (scroll_buffer_up s) = buffer_lines s"
  "current_line (scroll_buffer_up s) = current_line s"
  "current_col (scroll_buffer_up s) = current_col s"
  "display_start (scroll_buffer_up s) = display_start s"
  "scroll_position (scroll_buffer_up s) = scroll_position s"
  "current_fg (scroll_buffer_up s) = current_fg s"
  "current_bg (scroll_buffer_up s) = current_bg s"
  by (simp_all add: scroll_buffer_up_def Let_def)

lemma console_putchar_newline: "console_putchar 0x0A s = newline s"
  by (subst console_putchar.simps) (simp add: newline_def Let_def)

lemma newline_fields:
  "console_cols (newline s) = console_cols s"
  "console_rows (newline s) = console_rows s"
  "buffer_lines (newline s) = buffer_lines s"
  "current_fg (newline s) = current_fg s"
  "current_bg (newline s) = current_bg s"
  "current_col (newline s) = 0"
  "current_line (newline s) =
     (if buffer_lines s \<le> current_line s + 1 then buffer_lines s - 1 else current_line s + 1)"
  by (simp_all add: newline_def Let_def)

lemma newline_display_start:
  "display_start (newline s) =
     (if display_start s + console_rows s \<le> current_line (newline s)
      then current_line (newline s) - console_rows s + 1 else display_start s)"
  by (simp add: newline_def Let_def)

lemma newline_scroll_position:
  "scroll_position (newline s) =
     (if display_start s + console_rows s \<le> current_line (newline s)
      then current_line (newline s) - console_rows s + 1 else scroll_position s)"
  by (simp add: newline_def Let_def)

text \<open>\<^verbatim>\<open>console_putchar\<close> without the recursion.\<close>

lemma console_putchar_unfold:
  "console_putchar c s =
     (if c = 0x0A then newline s
      else if c = 0x0D then s\<lparr>current_col := 0\<rparr>
      else if c = 0x09 then
        (let c1 = s\<lparr>current_col := (current_col s + 8) AND NOT 7\<rparr>
         in if console_cols c1 \<le> current_col c1 then newline c1 else c1)
      else if c = 0x08 then
        (if 0 < current_col s then blank_cell (s\<lparr>current_col := current_col s - 1\<rparr>) else s)
      else if 32 \<le> c \<and> c \<le> 126 then
        (let c3 = (put_cell c s)\<lparr>current_col := current_col s + 1,
                                  total_chars := total_chars s + 1\<rparr>
         in if console_cols c3 \<le> current_col c3 then newline c3 else c3)
      else s)"
proof (cases "c = 0x0A")
  case True
  then show ?thesis by (simp add: console_putchar_newline)
next
  case False
  show ?thesis
    apply (subst console_putchar.simps)
    apply (simp only: console_putchar_newline)
    apply (simp add: False Let_def put_cell_def blank_cell_def split: option.splits)
    done
qed

lemma put_cell_view [simp]: "same_view (put_cell c s) s"
  by (simp add: put_cell_def same_view_def split: option.splits)

lemma blank_cell_view [simp]: "same_view (blank_cell s) s"
  by (simp add: blank_cell_def same_view_def split: option.splits)

text \<open>
  Every character either leaves the view as it is or ends in the newline case, entered
  from a state with the view of the start.
\<close>

lemma console_putchar_view:
  "same_view (console_putchar c s) s
   \<or> (\<exists>s1. same_view s1 s \<and> console_putchar c s = newline s1)"
proof -
  have a: "same_view (blank_cell (s\<lparr>current_col := current_col s - 1\<rparr>)) s"
    using blank_cell_view [of "s\<lparr>current_col := current_col s - 1\<rparr>"]
    by (simp add: same_view_def)
  have b: "same_view ((put_cell c s)\<lparr>current_col := current_col s + 1,
                                     total_chars := total_chars s + 1\<rparr>) s"
    using put_cell_view [of c s] by (simp add: same_view_def)
  have c: "same_view (s\<lparr>current_col := x\<rparr>) s" for x
    by (simp add: same_view_def)
  have d: "same_view s s" by (simp add: same_view_def)
  show ?thesis
    unfolding console_putchar_unfold [of c s] Let_def
    using a b c d by (auto simp del: One_nat_def)
qed

lemma follow_inv_view: "same_view s1 s \<Longrightarrow> follow_inv s1 = follow_inv s"
  by (simp add: same_view_def follow_inv_def)

text \<open>Word arithmetic of the newline case, read as natural numbers.\<close>

lemma unat_succ_line:
  fixes cl :: u32
  assumes "cl < 3000"
  shows "unat (cl + 1) = unat cl + 1"
proof -
  from assms have "unat cl < 3000" by (simp add: word_less_nat_alt)
  then show ?thesis by (simp add: unat_word_ariths)
qed

lemma newline_line_unat:
  assumes "buffer_lines s = 3000" and "current_line s < 3000"
  shows "unat (current_line (newline s)) = min (unat (current_line s) + 1) 2999"
proof -
  note n1 = unat_succ_line [OF assms(2)]
  from assms(2) have n: "unat (current_line s) < 3000" by (simp add: word_less_nat_alt)
  show ?thesis
  proof (cases "(3000 :: u32) \<le> current_line s + 1")
    case True
    then have "3000 \<le> unat (current_line s) + 1"
      using n1 by (simp add: word_le_nat_alt)
    with n True show ?thesis by (simp add: newline_fields assms(1))
  next
    case False
    then have "unat (current_line s) + 1 < 3000"
      using n1 by (simp add: word_le_nat_alt)
    with False show ?thesis by (simp add: newline_fields assms(1) n1)
  qed
qed

lemma newline_follow_inv:
  assumes "follow_inv s"
  shows "follow_inv (newline s)"
proof -
  define n R d where "n = unat (current_line s)" and "R = unat (console_rows s)"
    and "d = unat (display_start s)"
  from assms have bl: "buffer_lines s = 3000" and cl: "current_line s < 3000"
    and r: "0 < console_rows s" and d: "d = n + 1 - R"
    and sp: "scroll_position s = display_start s"
    by (auto simp: follow_inv_def MAX_BUFFER_LINES_def n_def R_def d_def)
  from cl have n: "n < 3000" by (simp add: word_less_nat_alt n_def)
  from r have R: "0 < R" by (simp add: word_less_nat_alt R_def)
  have Rb: "R < 2 ^ 32" unfolding R_def using unsigned_less [of "console_rows s", where ?'a = nat] by simp
  define m where "m = min (n + 1) 2999"
  have L: "unat (current_line (newline s)) = m"
    using newline_line_unat [OF bl cl] by (simp add: m_def n_def)
  have m: "m < 3000" "n \<le> m" using n by (simp_all add: m_def)
  have dR: "unat (display_start s + console_rows s) = d + R"
  proof -
    have "d + R < 2 ^ 32" using d n Rb by simp
    then show ?thesis by (simp add: unat_word_ariths d_def R_def)
  qed
  have trig: "display_start s + console_rows s \<le> current_line (newline s) \<longleftrightarrow> d + R \<le> m"
    by (simp add: word_le_nat_alt dR L)
  have bl': "buffer_lines (newline s) = MAX_BUFFER_LINES"
    by (simp add: newline_fields bl MAX_BUFFER_LINES_def)
  have cl': "current_line (newline s) < buffer_lines (newline s)"
    using L m by (simp add: newline_fields(3) bl word_less_nat_alt)
  have r': "0 < console_rows (newline s)" using r by (simp add: newline_fields)
  have ds': "unat (display_start (newline s)) = m + 1 - R"
  proof (cases "d + R \<le> m")
    case True
    then have le: "console_rows s \<le> current_line (newline s)"
      by (simp add: word_le_nat_alt L R_def)
    have "unat (current_line (newline s) - console_rows s) = m - R"
      using le by (simp add: unat_sub L R_def)
    moreover have "m - R + 1 < 2 ^ 32" using m by simp
    ultimately have "unat (current_line (newline s) - console_rows s + 1) = m - R + 1"
      by (simp add: unat_word_ariths)
    with True trig show ?thesis by (simp add: newline_display_start)
  next
    case False
    with trig have "display_start (newline s) = display_start s"
      by (simp add: newline_display_start)
    moreover from False d m n have "d = m + 1 - R" by (simp add: m_def split: if_splits)
    ultimately show ?thesis by (simp add: d_def)
  qed
  have sp': "scroll_position (newline s) = display_start (newline s)"
    by (simp add: newline_display_start newline_scroll_position sp)
  show ?thesis
    unfolding follow_inv_def using bl' cl' r' ds' sp' by (simp add: L newline_fields(2) R_def)
qed

lemma console_putchar_follow_inv:
  assumes "follow_inv s"
  shows "follow_inv (console_putchar c s)"
  using console_putchar_view [of c s] assms
  by (auto simp: follow_inv_view newline_follow_inv)

lemma fold_putchar_follow_inv:
  "follow_inv s \<Longrightarrow> follow_inv (fold console_putchar cs s)"
  by (induction cs arbitrary: s) (simp_all add: console_putchar_follow_inv)

lemma init_console_buffer_fields:
  "buffer_lines (snd (init_console_buffer s)) = MAX_BUFFER_LINES"
  "current_line (snd (init_console_buffer s)) = 0"
  "current_col (snd (init_console_buffer s)) = 0"
  "display_start (snd (init_console_buffer s)) = 0"
  "scroll_position (snd (init_console_buffer s)) = 0"
  "current_fg (snd (init_console_buffer s)) = COLOR_WHITE"
  "current_bg (snd (init_console_buffer s)) = COLOR_BLACK"
  "cursor_visible (snd (init_console_buffer s))"
  "console_rows (snd (init_console_buffer s)) = console_rows s"
  "console_cols (snd (init_console_buffer s)) = console_cols s"
  "fst (init_console_buffer s) = 0"
  by (simp_all add: init_console_buffer_def Let_def)

lemma init_console_buffer_follow_inv:
  "0 < console_rows s \<Longrightarrow> follow_inv (snd (init_console_buffer s))"
  unfolding follow_inv_def init_console_buffer_fields
  by (simp add: MAX_BUFFER_LINES_def word_less_nat_alt)

lemma follow_inv_auto_follow:
  assumes "follow_inv s"
  shows "if uint (console_rows s) - 1 \<le> uint (current_line s)
         then uint (display_start s) + uint (console_rows s) - 1 = uint (current_line s)
         else display_start s = 0"
proof -
  from assms have r: "0 < unat (console_rows s)"
    and ds: "unat (display_start s) = unat (current_line s) + 1 - unat (console_rows s)"
    by (simp_all add: follow_inv_def word_less_nat_alt)
  have u: "uint (console_rows s) = int (unat (console_rows s))"
    "uint (current_line s) = int (unat (current_line s))"
    "uint (display_start s) = int (unat (display_start s))"
    by simp_all
  show ?thesis
  proof (cases "unat (console_rows s) \<le> unat (current_line s) + 1")
    case True
    with r ds u have "uint (console_rows s) - 1 \<le> uint (current_line s)"
      and "uint (display_start s) + uint (console_rows s) - 1 = uint (current_line s)"
      by linarith+
    then show ?thesis by simp
  next
    case False
    with ds have "unat (display_start s) = 0" by simp
    then have z: "display_start s = 0" by (simp add: unat_eq_0)
    from False u have "\<not> uint (console_rows s) - 1 \<le> uint (current_line s)" by linarith
    with z show ?thesis by simp
  qed
qed

text \<open>
  C6. From the state \<^verbatim>\<open>init_console_buffer\<close> leaves, on a console with at least one
  row, after any sequence of bytes written with \<^verbatim>\<open>console_putchar\<close> and no manual
  scroll: \<open>display_start + console_rows - 1 = current_line\<close> when
  \<open>current_line \<ge> console_rows - 1\<close>, and \<open>display_start = 0\<close> otherwise.
\<close>

theorem auto_follow_invariant:
  assumes "0 < console_rows s"
  shows "let s' = fold console_putchar cs (snd (init_console_buffer s))
         in if uint (console_rows s') - 1 \<le> uint (current_line s')
            then uint (display_start s') + uint (console_rows s') - 1 = uint (current_line s')
            else display_start s' = 0"
  unfolding Let_def
  by (rule follow_inv_auto_follow,
      rule fold_putchar_follow_inv, rule init_console_buffer_follow_inv, rule assms)

theorem auto_follow_invariant_witness:
  "0 < console_rows console_qemu
   \<and> (let s' = fold console_putchar [0x41, 0x0A, 0x42, 0x0A]
                  (snd (init_console_buffer console_qemu))
      in if uint (console_rows s') - 1 \<le> uint (current_line s')
         then uint (display_start s') + uint (console_rows s') - 1 = uint (current_line s')
         else display_start s' = 0)"
  using auto_follow_invariant [of console_qemu "[0x41, 0x0A, 0x42, 0x0A]"]
  by (simp add: console_qemu_def)

section \<open>Carriage return and ignored bytes\<close>

text \<open>
  C9. \<^verbatim>\<open>console_putchar\<close> is a total function of the byte and the state. The
  carriage return 0x0D sets \<open>current_col\<close> to 0 and changes no other field; a byte that
  is not 0x0A, 0x0D, 0x09 or 0x08 and lies outside 32..126 leaves the whole state as
  it is.
\<close>

theorem console_putchar_cr_and_ignored:
  "console_putchar 0x0D s = s\<lparr>current_col := 0\<rparr>
   \<and> (c \<noteq> 0x0A \<and> c \<noteq> 0x0D \<and> c \<noteq> 0x09 \<and> c \<noteq> 0x08 \<and> \<not> (32 \<le> c \<and> c \<le> 126)
        \<longrightarrow> console_putchar c s = s)"
  by (simp add: console_putchar_unfold)

theorem console_putchar_cr_and_ignored_witness:
  "console_putchar 0x0D (console_qemu\<lparr>current_col := 17\<rparr>) = console_qemu\<lparr>current_col := 0\<rparr>
   \<and> console_putchar 0x07 console_qemu = console_qemu
   \<and> console_putchar 0x7F console_qemu = console_qemu
   \<and> console_putchar 0xFF console_qemu = console_qemu"
  using console_putchar_cr_and_ignored [of "console_qemu\<lparr>current_col := 17\<rparr>" "0x07"]
        console_putchar_cr_and_ignored [of console_qemu "0x07"]
        console_putchar_cr_and_ignored [of console_qemu "0x7F"]
        console_putchar_cr_and_ignored [of console_qemu "0xFF"]
  by simp

section \<open>Newlines past the end of the buffer\<close>

lemma console_putchar_static:
  "console_cols (console_putchar c s) = console_cols s"
  "console_rows (console_putchar c s) = console_rows s"
  "buffer_lines (console_putchar c s) = buffer_lines s"
  "current_fg (console_putchar c s) = current_fg s"
  "current_bg (console_putchar c s) = current_bg s"
  using console_putchar_view [of c s]
  by (auto simp: same_view_def newline_fields)

lemma fold_putchar_static:
  "console_cols (fold console_putchar cs s) = console_cols s"
  "console_rows (fold console_putchar cs s) = console_rows s"
  "buffer_lines (fold console_putchar cs s) = buffer_lines s"
  "current_fg (fold console_putchar cs s) = current_fg s"
  "current_bg (fold console_putchar cs s) = current_bg s"
  by (induction cs arbitrary: s) (simp_all add: console_putchar_static)

lemma newline_line_less:
  assumes "buffer_lines s = 3000" and "current_line s < 3000"
  shows "current_line (newline s) < 3000"
  using newline_line_unat [OF assms] by (simp add: word_less_nat_alt)

lemma newlines_line:
  assumes "buffer_lines s = 3000" and "current_line s < 3000"
  shows "unat (current_line (fold console_putchar (replicate n 0x0A) s))
           = min (unat (current_line s) + n) 2999"
  using assms
proof (induction n arbitrary: s)
  case 0
  then show ?case by (simp add: word_less_nat_alt)
next
  case (Suc n)
  have "unat (current_line (fold console_putchar (replicate n 0x0A) (newline s)))
          = min (unat (current_line (newline s)) + n) 2999"
    by (rule Suc.IH) (simp_all add: newline_fields(3) Suc.prems newline_line_less)
  then show ?case
    by (simp add: console_putchar_newline newline_line_unat [OF Suc.prems])
qed

















lemma scroll_pow_fields [simp]:
  "console_cols ((scroll_buffer_up ^^ k) s) = console_cols s"
  "buffer_lines ((scroll_buffer_up ^^ k) s) = buffer_lines s"
  "current_fg ((scroll_buffer_up ^^ k) s) = current_fg s"
  "current_bg ((scroll_buffer_up ^^ k) s) = current_bg s"
  by (induction k) simp_all

lemma cleared_cell_scroll_pow [simp]:
  "cleared_cell ((scroll_buffer_up ^^ k) s) = cleared_cell s"
  by (simp add: cleared_cell_def)



text \<open>
  A run of newlines from line 0 of a 3000-line buffer: which of them call
  \<^verbatim>\<open>scroll_buffer_up\<close>, and the cells they leave.
\<close>

lemma newlines_0 [simp]: "newlines 0 s = s"
  by (simp add: newlines_def)


lemma newlines_static [simp]:
  "console_cols (newlines n s) = console_cols s"
  "buffer_lines (newlines n s) = buffer_lines s"
  "current_fg (newlines n s) = current_fg s"
  "current_bg (newlines n s) = current_bg s"
  unfolding newlines_def by (rule fold_putchar_static)+

















section \<open>Rendering touches the pixels only\<close>

lemma same_console_refl [simp]: "same_console k k"
  by (simp add: same_console_def)

lemma same_console_trans:
  "same_console k2 k1 \<Longrightarrow> same_console k1 k \<Longrightarrow> same_console k2 k"
  unfolding same_console_def by (metis kernel_t.surjective kernel_t.update_convs(1))

lemma same_console_vram [simp]: "same_console (k\<lparr>vram := v\<rparr>) k"
  by (simp add: same_console_def)

lemma same_console_fold:
  assumes "\<And>x k. same_console (f x k) k"
  shows "same_console (fold f xs k) k"
proof (induction xs arbitrary: k)
  case Nil
  show ?case by simp
next
  case (Cons x xs)
  have "same_console (fold f xs (f x k)) (f x k)" by (rule Cons.IH)
  then show ?case using assms [of x k] by (auto intro: same_console_trans)
qed

lemma draw_char_at_same [simp]: "same_console (draw_char_at x y c fg bg k) k"
  by (simp add: draw_char_at_def Let_def)

lemma clear_screen_same [simp]: "same_console (clear_screen color k) k"
  by (simp add: clear_screen_def)

lemma draw_status_bar_same [simp]: "same_console (draw_status_bar fmt cp k) k"
  unfolding draw_status_bar_def Let_def
  by (rule same_console_trans [OF same_console_fold]) simp_all

lemma render_console_same [simp]: "same_console (render_console fmt cp k) k"
proof (cases "framebuffer k = 0")
  case True
  then show ?thesis by (simp add: render_console_def)
next
  case False
  have cell: "same_console
      (case get_cell kk line col of None \<Rightarrow> kk | Some cell \<Rightarrow> g cell kk) kk"
    if "\<And>cell. same_console (g cell kk) kk" for kk :: kernel_t and line col g
    using that by (simp split: option.splits)
  show ?thesis
    unfolding render_console_def Let_def
    apply (simp only: False if_False)
    apply (rule same_console_trans [OF draw_status_bar_same])
    apply (rule same_console_trans [OF same_console_fold])
     apply (rule same_console_fold)
     apply (rule cell)
     apply (rule draw_char_at_same)
    apply (rule same_console_vram)
    done
qed

lemma same_console_fields:
  assumes "same_console k1 k"
  shows "framebuffer k1 = framebuffer k" "width k1 = width k" "height k1 = height k"
    "console_cols k1 = console_cols k" "console_rows k1 = console_rows k"
    "buffer k1 = buffer k" "buffer_lines k1 = buffer_lines k"
    "current_line k1 = current_line k" "current_col k1 = current_col k"
    "display_start k1 = display_start k" "scroll_position k1 = scroll_position k"
    "current_fg k1 = current_fg k" "current_bg k1 = current_bg k"
    "mouse_x k1 = mouse_x k" "mouse_y k1 = mouse_y k" "mouse_buttons k1 = mouse_buttons k"
    "mouse_packet k1 = mouse_packet k" "packet_index k1 = packet_index k"
    "total_chars k1 = total_chars k" "cursor_blink_counter k1 = cursor_blink_counter k"
proof -
  from assms have e: "k1 = k\<lparr>vram := vram k1\<rparr>" by (simp add: same_console_def)
  show "framebuffer k1 = framebuffer k" by (subst e) simp
  show "width k1 = width k" by (subst e) simp
  show "height k1 = height k" by (subst e) simp
  show "console_cols k1 = console_cols k" by (subst e) simp
  show "console_rows k1 = console_rows k" by (subst e) simp
  show "buffer k1 = buffer k" by (subst e) simp
  show "buffer_lines k1 = buffer_lines k" by (subst e) simp
  show "current_line k1 = current_line k" by (subst e) simp
  show "current_col k1 = current_col k" by (subst e) simp
  show "display_start k1 = display_start k" by (subst e) simp
  show "scroll_position k1 = scroll_position k" by (subst e) simp
  show "current_fg k1 = current_fg k" by (subst e) simp
  show "current_bg k1 = current_bg k" by (subst e) simp
  show "mouse_x k1 = mouse_x k" by (subst e) simp
  show "mouse_y k1 = mouse_y k" by (subst e) simp
  show "mouse_buttons k1 = mouse_buttons k" by (subst e) simp
  show "mouse_packet k1 = mouse_packet k" by (subst e) simp
  show "packet_index k1 = packet_index k" by (subst e) simp
  show "total_chars k1 = total_chars k" by (subst e) simp
  show "cursor_blink_counter k1 = cursor_blink_counter k" by (subst e) simp
qed

lemmas render_console_fields [simp] = same_console_fields [OF render_console_same]

lemma render_console_null: "framebuffer k = 0 \<Longrightarrow> render_console fmt cp k = k"
  by (simp add: render_console_def)

section \<open>Manual scrolling\<close>

lemma handle_scroll_unfold:
  "handle_scroll fmt cp delta k =
     (if scroll_target delta k \<noteq> scroll_position k
      then render_console fmt cp
             (k\<lparr>scroll_position := scroll_target delta k,
                display_start := scroll_target delta k\<rparr>)
      else k)"
  by (simp add: handle_scroll_def scroll_target_def Let_def)

lemma handle_scroll_fields:
  "scroll_position (handle_scroll fmt cp delta k) = scroll_target delta k"
  "display_start (handle_scroll fmt cp delta k) =
     (if scroll_target delta k \<noteq> scroll_position k then scroll_target delta k
      else display_start k)"
  "current_line (handle_scroll fmt cp delta k) = current_line k"
  "console_rows (handle_scroll fmt cp delta k) = console_rows k"
  "buffer_lines (handle_scroll fmt cp delta k) = buffer_lines k"
  "mouse_x (handle_scroll fmt cp delta k) = mouse_x k"
  "mouse_y (handle_scroll fmt cp delta k) = mouse_y k"
  "mouse_packet (handle_scroll fmt cp delta k) = mouse_packet k"
  "packet_index (handle_scroll fmt cp delta k) = packet_index k"
  "width (handle_scroll fmt cp delta k) = width k"
  "height (handle_scroll fmt cp delta k) = height k"
  by (simp_all add: handle_scroll_unfold)

text \<open>Two's complement arithmetic on 32 bits, inside its range.\<close>

lemma s32_take:
  assumes "- 2147483648 \<le> (i :: int)" and "i < 2147483648"
  shows "signed_take_bit 31 i = i"
  by (rule signed_take_bit_int_eq_self) (use assms in simp_all)

lemma s32_range: "- 2147483648 \<le> sint (w :: u32)" "sint (w :: u32) < 2147483648"
  using sint_ge [of w] sint_lt [of w] by simp_all

lemma u32_nonneg: "0 \<le> uint (w :: u32)"
  by simp

lemma s32_small:
  assumes "uint (w :: u32) < 2147483648"
  shows "sint w = uint w"
proof -
  have "- 2147483648 \<le> uint w" using u32_nonneg [of w] by linarith
  then have "signed_take_bit 31 (uint w) = uint w" using assms by (rule s32_take)
  then show ?thesis by (simp add: sint_uint)
qed

lemma s32_add:
  assumes "- 2147483648 \<le> sint a + sint b" and "sint a + sint b < 2147483648"
  shows "sint (a + b :: u32) = sint a + sint b"
  using s32_take [OF assms] by (simp add: sint_word_ariths)

lemma s32_sub:
  assumes "- 2147483648 \<le> sint a - sint b" and "sint a - sint b < 2147483648"
  shows "sint (a - b :: u32) = sint a - sint b"
  using s32_take [OF assms] by (simp add: sint_word_ariths)

lemma s32_nonneg: "0 \<le> sint (w :: u32) \<Longrightarrow> uint w = sint w"
proof -
  assume a: "0 \<le> sint w"
  have "uint w = take_bit 32 (sint w)" by (simp add: uint_sint)
  also have "\<dots> = sint w"
    using a s32_range(2) [of w] by (simp add: take_bit_int_eq_self)
  finally show ?thesis .
qed


lemma console_inv_bounds:
  assumes "console_inv k"
  shows "uint (current_line k) < 3000" "uint (console_rows k) \<le> 268435455"
    "uint (scroll_position k) < 3000" "0 < uint (console_rows k)"
    "uint (scroll_position k) \<le> uint (current_line k)"
proof -
  from assms have a: "current_line k < 3000" "console_rows k \<le> 0x0FFFFFFF"
    "scroll_position k \<le> current_line k" "0 < console_rows k"
    by (auto simp: console_inv_def MAX_BUFFER_LINES_def)
  from a(1) show c: "uint (current_line k) < 3000" by (simp add: word_less_def)
  from a(2) show "uint (console_rows k) \<le> 268435455" by (simp add: word_le_def)
  from a(3) show s: "uint (scroll_position k) \<le> uint (current_line k)"
    by (simp add: word_le_def)
  from c s show "uint (scroll_position k) < 3000" by linarith
  from a(4) show "0 < uint (console_rows k)" by (simp add: word_less_def)
qed

lemma scroll_target_bounds:
  fixes k :: "'a universal_console_t_scheme"
  assumes cl: "uint (current_line k) < 3000" and r: "uint (console_rows k) \<le> 268435455"
  shows "0 \<le> sint (scroll_target delta k)"
    and "sint (scroll_target delta k)
           \<le> max 0 (uint (current_line k) - uint (console_rows k) + 1)"
    and "uint (scroll_target delta k) = sint (scroll_target delta k)"
proof -
  note nn = u32_nonneg [of "current_line k"] u32_nonneg [of "console_rows k"]
  have scl: "sint (current_line k) = uint (current_line k)"
    by (rule s32_small) (use cl in linarith)
  have sr: "sint (console_rows k) = uint (console_rows k)"
    by (rule s32_small) (use r in linarith)
  have m1: "sint (current_line k - console_rows k)
              = uint (current_line k) - uint (console_rows k)"
  proof -
    have a: "- 2147483648 \<le> sint (current_line k) - sint (console_rows k)"
      unfolding scl sr using nn r by linarith
    have b: "sint (current_line k) - sint (console_rows k) < 2147483648"
      unfolding scl sr using nn cl by linarith
    from s32_sub [OF a b] show ?thesis by (simp only: scl sr)
  qed
  have one: "sint (1 :: u32) = 1" by simp
  have m0: "sint (current_line k - console_rows k + 1)
              = uint (current_line k) - uint (console_rows k) + 1"
  proof -
    have a: "- 2147483648 \<le> sint (current_line k - console_rows k) + sint (1 :: u32)"
      unfolding m1 one using nn r by linarith
    have b: "sint (current_line k - console_rows k) + sint (1 :: u32) < 2147483648"
      unfolding m1 one using nn cl by linarith
    from s32_add [OF a b] show ?thesis by (simp only: m1 one)
  qed
  show p: "0 \<le> sint (scroll_target delta k)"
    unfolding scroll_target_def Let_def
    by (simp add: word_sless_alt m0)
  show "sint (scroll_target delta k)
           \<le> max 0 (uint (current_line k) - uint (console_rows k) + 1)"
    unfolding scroll_target_def Let_def
    by (simp add: word_sless_alt m0 max_def)
  from p show "uint (scroll_target delta k) = sint (scroll_target delta k)"
    by (rule s32_nonneg)
qed

lemma nat_diff_max: "int (a + 1 - b) = max 0 (int a - int b + 1)"
proof (cases "b \<le> a + 1")
  case True
  then have "int (a + 1 - b) = int (a + 1) - int b" by (rule of_nat_diff)
  with True show ?thesis by simp
next
  case False
  then show ?thesis by simp
qed

lemma max_scroll_nat:
  "int (unat (cl :: u32) + 1 - unat (r :: u32)) = max 0 (uint cl - uint r + 1)"
  using nat_diff_max [of "unat cl" "unat r"] by simp

lemma handle_scroll_display_start:
  assumes "console_inv k"
  shows "display_start (handle_scroll fmt cp delta k)
           = scroll_position (handle_scroll fmt cp delta k)"
proof (cases "scroll_target delta k = scroll_position k")
  case False
  then show ?thesis by (simp add: handle_scroll_fields)
next
  case True
  note b = console_inv_bounds [OF assms]
  have le: "uint (scroll_position k)
              \<le> max 0 (uint (current_line k) - uint (console_rows k) + 1)"
    using scroll_target_bounds(2,3) [OF b(1,2), of delta] by (simp add: True)
  have "display_start k = scroll_position k"
  proof (rule ccontr)
    assume "display_start k \<noteq> scroll_position k"
    with assms have lt: "display_start k < scroll_position k"
      and m: "unat (current_line k) + 1 - unat (console_rows k) \<le> unat (display_start k)"
      by (auto simp: console_inv_def)
    from m have "int (unat (current_line k) + 1 - unat (console_rows k))
                   \<le> int (unat (display_start k))" by (simp only: of_nat_le_iff)
    then have "max 0 (uint (current_line k) - uint (console_rows k) + 1)
                 \<le> uint (display_start k)"
      by (simp only: max_scroll_nat) simp
    moreover from lt have "uint (display_start k) < uint (scroll_position k)"
      by (simp add: word_less_def)
    ultimately show False using le by linarith
  qed
  with True show ?thesis by (simp add: handle_scroll_fields)
qed


lemma follow_inv_console_inv:
  assumes "follow_inv s" and "console_rows s \<le> 0x0FFFFFFF"
  shows "console_inv s"
proof -
  from assms(1) have r: "0 < unat (console_rows s)"
    and d: "unat (display_start s) = unat (current_line s) + 1 - unat (console_rows s)"
    by (simp_all add: follow_inv_def word_less_nat_alt)
  from r d have "unat (display_start s) \<le> unat (current_line s)" by linarith
  then have "display_start s \<le> current_line s" by (simp add: word_le_nat_alt)
  with assms show ?thesis by (auto simp: follow_inv_def console_inv_def)
qed

lemma u32_eq_unat: "unat (w :: u32) = n \<Longrightarrow> n < 2 ^ 32 \<Longrightarrow> w = of_nat n"
  by auto

lemma console_2500_fields:
  "follow_inv console_2500" "console_rows console_2500 = 29"
  "current_line console_2500 = 2500" "display_start console_2500 = 2472"
  "scroll_position console_2500 = 2472"
proof -
  let ?s0 = "snd (init_console_buffer console_qemu)"
  have r0: "console_rows ?s0 = 29"
    by (simp add: init_console_buffer_fields console_qemu_def)
  have f0: "follow_inv ?s0"
    by (rule init_console_buffer_follow_inv) (simp add: console_qemu_def)
  show f: "follow_inv console_2500"
    unfolding console_2500_def by (rule fold_putchar_follow_inv [OF f0])
  show r: "console_rows console_2500 = 29"
    unfolding console_2500_def fold_putchar_static by (rule r0)
  have "unat (current_line console_2500) = 2500"
    unfolding console_2500_def
    using newlines_line [of ?s0 2500]
    by (simp add: init_console_buffer_fields MAX_BUFFER_LINES_def)
  then have "current_line console_2500 = of_nat 2500" by (rule u32_eq_unat) simp
  then show c: "current_line console_2500 = 2500" by simp
  from f have "unat (display_start console_2500) = 2472"
    by (simp add: follow_inv_def r c)
  then have "display_start console_2500 = of_nat 2472" by (rule u32_eq_unat) simp
  then show d: "display_start console_2500 = 2472" by simp
  from f d show "scroll_position console_2500 = 2472" by (simp add: follow_inv_def)
qed

lemma console_2500_inv: "console_inv console_2500"
  by (rule follow_inv_console_inv) (simp_all add: console_2500_fields)




section \<open>The running console keeps its invariant\<close>

lemma console_inv_view: "same_view s1 s \<Longrightarrow> console_inv s1 = console_inv s"
  by (simp add: same_view_def console_inv_def)

lemma newline_console_inv:
  assumes "console_inv s"
  shows "console_inv (newline s)"
proof -
  define n R d p where "n = unat (current_line s)" and "R = unat (console_rows s)"
    and "d = unat (display_start s)" and "p = unat (scroll_position s)"
  from assms have bl: "buffer_lines s = 3000" and cl: "current_line s < 3000"
    and r: "0 < console_rows s" and rb: "console_rows s \<le> 0x0FFFFFFF"
    and pn: "scroll_position s \<le> current_line s"
    and dj: "display_start s = scroll_position s
             \<or> (display_start s < scroll_position s \<and> n + 1 - R \<le> d)"
    by (auto simp: console_inv_def MAX_BUFFER_LINES_def n_def R_def d_def)
  from cl have n: "n < 3000" by (simp add: word_less_nat_alt n_def)
  from r have R: "0 < R" by (simp add: word_less_nat_alt R_def)
  from rb have Rb: "R \<le> 268435455" by (simp add: word_le_nat_alt R_def)
  from pn have p: "p \<le> n" by (simp add: word_le_nat_alt p_def n_def)
  from dj have dp: "d \<le> p" by (auto simp: word_less_nat_alt d_def p_def)
  define m where "m = min (n + 1) 2999"
  have L: "unat (current_line (newline s)) = m"
    using newline_line_unat [OF bl cl] by (simp add: m_def n_def)
  have m: "m < 3000" "n \<le> m" using n by (simp_all add: m_def)
  have dR: "unat (display_start s + console_rows s) = d + R"
  proof -
    have "d + R < 2 ^ 32" using dp p n Rb by simp
    then show ?thesis by (simp add: unat_word_ariths d_def R_def)
  qed
  have trig: "display_start s + console_rows s \<le> current_line (newline s) \<longleftrightarrow> d + R \<le> m"
    by (simp add: word_le_nat_alt dR L)
  have bl': "buffer_lines (newline s) = MAX_BUFFER_LINES"
    by (simp add: newline_fields bl MAX_BUFFER_LINES_def)
  have cl': "current_line (newline s) < buffer_lines (newline s)"
    using L m by (simp add: newline_fields(3) bl word_less_nat_alt)
  have r': "0 < console_rows (newline s)" "console_rows (newline s) \<le> 0x0FFFFFFF"
    using r rb by (simp_all add: newline_fields)
  have rest: "scroll_position (newline s) \<le> current_line (newline s)
     \<and> (display_start (newline s) = scroll_position (newline s)
        \<or> (display_start (newline s) < scroll_position (newline s)
           \<and> m + 1 - R \<le> unat (display_start (newline s))))"
  proof (cases "d + R \<le> m")
    case True
    then have le: "console_rows s \<le> current_line (newline s)"
      by (simp add: word_le_nat_alt L R_def)
    have "unat (current_line (newline s) - console_rows s) = m - R"
      using le by (simp add: unat_sub L R_def)
    moreover have "m - R + 1 < 2 ^ 32" using m by simp
    ultimately have "unat (current_line (newline s) - console_rows s + 1) = m - R + 1"
      by (simp add: unat_word_ariths)
    moreover have "m - R + 1 \<le> m" using R True by simp
    ultimately have "current_line (newline s) - console_rows s + 1 \<le> current_line (newline s)"
      by (simp add: word_le_nat_alt L)
    with True trig show ?thesis
      by (simp add: newline_display_start newline_scroll_position)
  next
    case False
    with trig have e: "display_start (newline s) = display_start s"
      "scroll_position (newline s) = scroll_position s"
      by (simp_all add: newline_display_start newline_scroll_position)
    have "scroll_position s \<le> current_line (newline s)"
      using p m by (simp add: word_le_nat_alt L p_def)
    moreover have "m + 1 - R \<le> d" using False by simp
    ultimately show ?thesis using dj by (auto simp: e d_def)
  qed
  show ?thesis
    unfolding console_inv_def using bl' cl' r' rest by (simp add: L newline_fields(2) R_def)
qed

lemma console_putchar_console_inv:
  assumes "console_inv s"
  shows "console_inv (console_putchar c s)"
  using console_putchar_view [of c s] assms
  by (auto simp: console_inv_view newline_console_inv)

lemma fold_putchar_console_inv:
  "console_inv s \<Longrightarrow> console_inv (fold console_putchar cs s)"
  by (induction cs arbitrary: s) (simp_all add: console_putchar_console_inv)

lemma same_console_console_inv:
  assumes "same_console k1 k"
  shows "console_inv k1 = console_inv k"
  by (simp add: console_inv_def same_console_fields [OF assms])

lemma scroll_set_console_inv:
  assumes "console_inv k" and "t \<le> current_line k"
  shows "console_inv (k\<lparr>scroll_position := t, display_start := t\<rparr>)"
  using assms by (auto simp: console_inv_def)

lemma handle_scroll_console_inv:
  assumes "console_inv k"
  shows "console_inv (handle_scroll fmt cp delta k)"
proof (cases "scroll_target delta k = scroll_position k")
  case True
  with assms show ?thesis by (simp add: handle_scroll_unfold)
next
  case False
  note b = console_inv_bounds [OF assms]
  have "uint (scroll_target delta k)
          \<le> max 0 (uint (current_line k) - uint (console_rows k) + 1)"
    using scroll_target_bounds(2,3) [OF b(1,2), of delta] by simp
  moreover have "max 0 (uint (current_line k) - uint (console_rows k) + 1)
                   \<le> uint (current_line k)"
    using b(4) by simp
  ultimately have "uint (scroll_target delta k) \<le> uint (current_line k)" by linarith
  then have "scroll_target delta k \<le> current_line k" by (simp add: word_le_def)
  from scroll_set_console_inv [OF assms this] False show ?thesis
    by (simp add: handle_scroll_unfold
        same_console_console_inv [OF render_console_same])
qed

lemma end_key_window:
  fixes cl r :: u32
  assumes "cl < 3000" and "0 < r"
  shows "unat (if r \<le> cl then cl - r + 1 else 0) = unat cl + 1 - unat r"
proof (cases "r \<le> cl")
  case True
  then have "unat (cl - r) = unat cl - unat r" by (simp add: unat_sub)
  moreover have "unat cl - unat r + 1 < 2 ^ 32"
    using assms(1) by (simp add: word_less_nat_alt)
  ultimately have "unat (cl - r + 1) = unat cl - unat r + 1"
    by (simp add: unat_word_ariths)
  with True show ?thesis by (simp add: word_le_nat_alt)
next
  case False
  then show ?thesis by (simp add: word_le_nat_alt)
qed

lemma handle_keyboard_input_console_inv:
  assumes "console_inv k"
  shows "console_inv (handle_keyboard_input fmt cp kbd k)"
proof -
  have home: "console_inv (k\<lparr>scroll_position := 0, display_start := 0\<rparr>)"
    using assms by (auto simp: console_inv_def)
  have "console_inv (k\<lparr>scroll_position := current_line k,
                        display_start := (if console_rows k \<le> current_line k
                                          then current_line k - console_rows k + 1 else 0)\<rparr>)"
  proof -
    from assms have cl: "current_line k < 3000" and r: "0 < console_rows k"
      by (auto simp: console_inv_def MAX_BUFFER_LINES_def)
    note w = end_key_window [OF cl r]
    from r have "0 < unat (console_rows k)" by (simp add: word_less_nat_alt)
    with w have "unat (if console_rows k \<le> current_line k
                       then current_line k - console_rows k + 1 else 0)
                   \<le> unat (current_line k)" by linarith
    then have "(if console_rows k \<le> current_line k
                then current_line k - console_rows k + 1 else 0) \<le> current_line k"
      by (simp only: word_le_nat_alt)
    then have "(if console_rows k \<le> current_line k
                then current_line k - console_rows k + 1 else 0) = current_line k
          \<or> (if console_rows k \<le> current_line k
                then current_line k - console_rows k + 1 else 0) < current_line k"
      by (simp only: order.order_iff_strict) blast
    with assms w show ?thesis
      unfolding console_inv_def by (auto simp del: One_nat_def)
  qed
  with assms home show ?thesis
    by (auto simp: handle_keyboard_input_def Let_def handle_scroll_console_inv
        same_console_console_inv [OF render_console_same] split: if_splits)
qed

section \<open>Mouse packets\<close>

lemma clamp_coord_sint:
  assumes "0 < sint limit"
  shows "sint (clamp_coord v limit) = max 0 (min (sint v) (sint limit - 1))"
proof -
  have one: "sint (1 :: u32) = 1" by simp
  have l1: "sint (limit - 1) = sint limit - 1"
  proof -
    have a: "- 2147483648 \<le> sint limit - sint (1 :: u32)"
      unfolding one using assms by linarith
    have b: "sint limit - sint (1 :: u32) < 2147483648"
      unfolding one using s32_range(2) [of limit] by linarith
    from s32_sub [OF a b] show ?thesis by (simp only: one)
  qed
  show ?thesis
    unfolding clamp_coord_def Let_def
    using assms by (simp add: word_sless_alt word_sle_eq l1 max_def min_def)
qed

lemma scast_byte_sint: "sint (scast (b :: u8) :: u32) = sint b"
  by (rule sint_up_scast) (simp add: is_up)

lemma byte_range: "- 128 \<le> sint (b :: u8)" "sint (b :: u8) < 128"
  using sint_ge [of b] sint_lt [of b] by simp_all

lemma scast_byte_zero: "(scast (b :: u8) :: u32) = 0 \<longleftrightarrow> b = 0"
proof
  assume "(scast b :: u32) = 0"
  then have "sint (scast b :: u32) = 0" by simp
  then have "sint b = 0" by (simp only: scast_byte_sint)
  then show "b = 0" by (simp add: signed_eq_0_iff)
next
  assume "b = 0"
  then show "(scast b :: u32) = 0" by simp
qed

lemma list3: "length xs = 3 \<Longrightarrow> \<exists>a b c. xs = [a, b, c]"
  by (cases xs; simp; (rename_tac a ys, case_tac ys; simp; (rename_tac b zs, case_tac zs; simp)))

lemma handle_mouse_input_third:
  assumes "platform cp = PLATFORM_QEMU_VERSATILE" and "packet_index k = 2"
    and "length (mouse_packet k) = 3" and "ps2_read_data mouse = b2" and "b2 \<noteq> 0"
  shows "handle_mouse_input fmt cp mouse k =
     (let b0 = mouse_packet k ! 0;
          delta_x = scast (mouse_packet k ! 1);
          delta_y = scast b2;
          moved = k\<lparr>mouse_packet := (mouse_packet k)[2 := b2], packet_index := 0,
                    mouse_x := clamp_coord (mouse_x k + delta_x) (width k),
                    mouse_y := clamp_coord (mouse_y k - delta_y) (height k)\<rparr>
      in (if b0 AND 0x02 \<noteq> 0 \<and> delta_y \<noteq> 0
          then handle_scroll fmt cp (if 0 <s delta_y then 3 else - 3) moved
          else moved)\<lparr>mouse_buttons := b0\<rparr>)"
proof -
  obtain a b c where p: "mouse_packet k = [a, b, c]"
    using list3 [OF assms(3)] by blast
  have ifx: "(if cnd then r\<lparr>mouse_x := v\<rparr> else r) = r\<lparr>mouse_x := (if cnd then v else mouse_x r)\<rparr>"
    for cnd v and r :: kernel_t by simp
  have ify: "(if cnd then r\<lparr>mouse_y := v\<rparr> else r) = r\<lparr>mouse_y := (if cnd then v else mouse_y r)\<rparr>"
    for cnd v and r :: kernel_t by simp
  have clamp_fold: "(if l \<le>s (if v <s 0 then 0 else v) then l - 1
                     else (if v <s 0 then 0 else v)) = clamp_coord v l" for v l
    by (simp add: clamp_coord_def Let_def)
  have if_conj: "(if A then (if B then x else y) else y) = (if A \<and> B then x else y)"
    for A B and x y :: kernel_t by simp
  show ?thesis
    unfolding handle_mouse_input_def
    by (simp add: assms(1,2,4,5) p ifx ify clamp_fold if_conj Let_def
        split del: if_split cong: if_cong)
qed

text \<open>
  A third byte that is not zero. On the emulator, when the third byte \<open>b2\<close> of a packet
  is stored, with \<open>b0\<close>, \<open>b1\<close> the bytes stored before, the screen at least one pixel
  wide and high and the pointer where the sums do not overflow: the horizontal position
  becomes \<open>mouse_x + (int8) b1\<close> and the vertical position \<open>mouse_y - (int8) b2\<close>, each
  clamped to \<open>[0, width - 1]\<close> and \<open>[0, height - 1]\<close>; \<open>mouse_buttons\<close> becomes \<open>b0\<close>;
  and \<^verbatim>\<open>handle_scroll\<close> is called, with 3 for a positive and -3 for a negative vertical
  delta, exactly when bit 1 of \<open>b0\<close> is set and the vertical delta is not zero (that of
  a stored byte never is). For the packet (0x08, 5, -3) the buttons are 0x08,
  the clamped sums are those of +5 and +3, and no scroll is made.
\<close>

lemma handle_mouse_input_decodes:
  fixes k k' moved :: kernel_t
  assumes "platform cp = PLATFORM_QEMU_VERSATILE" and "packet_index k = 2"
    and "length (mouse_packet k) = 3" and "ps2_read_data mouse = b2" and "b2 \<noteq> 0"
    and "0 < sint (width k)" and "0 < sint (height k)"
    and "0 \<le> sint (mouse_x k)" and "sint (mouse_x k) < 2147483520"
    and "0 \<le> sint (mouse_y k)" and "sint (mouse_y k) < 2147483520"
    and b0: "b0 = mouse_packet k ! 0" and b1: "b1 = mouse_packet k ! 1"
    and k': "k' = handle_mouse_input fmt cp mouse k"
    and moved: "moved = k\<lparr>mouse_packet := (mouse_packet k)[2 := b2], packet_index := 0,
                          mouse_x := mouse_x k', mouse_y := mouse_y k'\<rparr>"
  shows "sint (mouse_x k') = max 0 (min (sint (mouse_x k) + sint b1) (sint (width k) - 1))
       \<and> sint (mouse_y k') = max 0 (min (sint (mouse_y k) - sint b2) (sint (height k) - 1))
       \<and> mouse_buttons k' = b0
       \<and> k' = (if b0 AND 0x02 \<noteq> 0 \<and> sint b2 \<noteq> 0
                then handle_scroll fmt cp (if 0 < sint b2 then 3 else - 3) moved
                else moved)\<lparr>mouse_buttons := b0\<rparr>
       \<and> (b0 = 0x08 \<and> b1 = 0x05 \<and> b2 = 0xFD \<longrightarrow>
            sint (mouse_x k') = max 0 (min (sint (mouse_x k) + 5) (sint (width k) - 1))
            \<and> sint (mouse_y k') = max 0 (min (sint (mouse_y k) + 3) (sint (height k) - 1))
            \<and> mouse_buttons k' = 0x08
            \<and> scroll_position k' = scroll_position k
            \<and> display_start k' = display_start k \<and> vram k' = vram k)"
proof -
  define delta_x delta_y :: u32 where "delta_x = scast b1" and "delta_y = scast b2"
  define X Y where "X = clamp_coord (mouse_x k + delta_x) (width k)"
    and "Y = clamp_coord (mouse_y k - delta_y) (height k)"
  define m0 where
    "m0 = k\<lparr>mouse_packet := (mouse_packet k)[2 := b2], packet_index := 0,
            mouse_x := X, mouse_y := Y\<rparr>"
  have e: "k' = (if b0 AND 0x02 \<noteq> 0 \<and> delta_y \<noteq> 0
                 then handle_scroll fmt cp (if 0 <s delta_y then 3 else - 3) m0
                 else m0)\<lparr>mouse_buttons := b0\<rparr>"
    unfolding k' handle_mouse_input_third [OF assms(1-5)] Let_def
    by (simp only: b0 b1 delta_x_def delta_y_def X_def Y_def m0_def)
  have mx: "mouse_x k' = X" and my: "mouse_y k' = Y" and mb: "mouse_buttons k' = b0"
    unfolding e by (simp_all add: handle_scroll_fields m0_def)
  have mm: "moved = m0" unfolding moved m0_def mx my ..
  have sdx: "sint delta_x = sint b1" and sdy: "sint delta_y = sint b2"
    by (simp_all add: delta_x_def delta_y_def scast_byte_sint)
  have sx: "sint (mouse_x k + delta_x) = sint (mouse_x k) + sint b1"
  proof -
    have a: "- 2147483648 \<le> sint (mouse_x k) + sint delta_x"
      unfolding sdx using assms(8) byte_range [of b1] by linarith
    have b: "sint (mouse_x k) + sint delta_x < 2147483648"
      unfolding sdx using assms(9) byte_range [of b1] by linarith
    from s32_add [OF a b] show ?thesis by (simp only: sdx)
  qed
  have sy: "sint (mouse_y k - delta_y) = sint (mouse_y k) - sint b2"
  proof -
    have a: "- 2147483648 \<le> sint (mouse_y k) - sint delta_y"
      unfolding sdy using assms(10) byte_range [of b2] by linarith
    have b: "sint (mouse_y k) - sint delta_y < 2147483648"
      unfolding sdy using assms(11) byte_range [of b2] by linarith
    from s32_sub [OF a b] show ?thesis by (simp only: sdy)
  qed
  have cx: "sint (mouse_x k') = max 0 (min (sint (mouse_x k) + sint b1) (sint (width k) - 1))"
    unfolding mx X_def clamp_coord_sint [OF assms(6)] sx ..
  have cy: "sint (mouse_y k') = max 0 (min (sint (mouse_y k) - sint b2) (sint (height k) - 1))"
    unfolding my Y_def clamp_coord_sint [OF assms(7)] sy ..
  have dz: "delta_y \<noteq> 0 \<longleftrightarrow> sint b2 \<noteq> 0"
    by (simp add: delta_y_def scast_byte_zero signed_eq_0_iff)
  have dp: "0 <s delta_y \<longleftrightarrow> 0 < sint b2"
    by (simp add: word_sless_alt sdy)
  have e': "k' = (if b0 AND 0x02 \<noteq> 0 \<and> sint b2 \<noteq> 0
                  then handle_scroll fmt cp (if 0 < sint b2 then 3 else - 3) moved
                  else moved)\<lparr>mouse_buttons := b0\<rparr>"
    using e by (simp only: dz dp mm)
  have noscroll: "scroll_position k' = scroll_position k \<and> display_start k' = display_start k
                  \<and> vram k' = vram k" if "b0 = 0x08"
    unfolding e using that by (simp add: m0_def)
  have fd: "sint (0xFD :: u8) = - 3" by simp
  have five: "sint (0x05 :: u8) = 5" by simp
  have part5: "b0 = 0x08 \<and> b1 = 0x05 \<and> b2 = 0xFD \<longrightarrow>
                 sint (mouse_x k') = max 0 (min (sint (mouse_x k) + 5) (sint (width k) - 1))
                 \<and> sint (mouse_y k') = max 0 (min (sint (mouse_y k) + 3) (sint (height k) - 1))
                 \<and> mouse_buttons k' = 0x08
                 \<and> scroll_position k' = scroll_position k
                 \<and> display_start k' = display_start k \<and> vram k' = vram k"
  proof (intro impI, elim conjE)
    assume h: "b0 = 0x08" "b1 = 0x05" "b2 = 0xFD"
    from cx have 1: "sint (mouse_x k') = max 0 (min (sint (mouse_x k) + 5) (sint (width k) - 1))"
      by (simp only: h five)
    from cy
    have 2: "sint (mouse_y k') = max 0 (min (sint (mouse_y k) + 3) (sint (height k) - 1))"
      by (simp only: h fd)
    from mb have 3: "mouse_buttons k' = 0x08" by (simp only: h)
    from noscroll [OF h(1)] have 4: "scroll_position k' = scroll_position k"
      and 5: "display_start k' = display_start k" and 6: "vram k' = vram k" by blast+
    from 1 2 3 4 5 6
    show "sint (mouse_x k') = max 0 (min (sint (mouse_x k) + 5) (sint (width k) - 1))
                 \<and> sint (mouse_y k') = max 0 (min (sint (mouse_y k) + 3) (sint (height k) - 1))
                 \<and> mouse_buttons k' = 0x08
                 \<and> scroll_position k' = scroll_position k
                 \<and> display_start k' = display_start k \<and> vram k' = vram k"
      by blast
  qed
  show ?thesis
    apply (intro conjI)
        apply (rule cx)
       apply (rule cy)
      apply (rule mb)
     apply (rule e')
    apply (rule part5)
    done
qed

lemma handle_mouse_input_decodes_example:
  "platform qemu_profile = PLATFORM_QEMU_VERSATILE
   \<and> packet_index console_two_bytes = 2
   \<and> mouse_packet console_two_bytes = [0x08, 0x05, 0x00]
   \<and> ps2_read_data port_fd = 0xFD
   \<and> sint (mouse_x console_two_bytes) = 0 \<and> sint (mouse_y console_two_bytes) = 0
   \<and> sint (mouse_x (handle_mouse_input no_format qemu_profile port_fd console_two_bytes)) = 5
   \<and> sint (mouse_y (handle_mouse_input no_format qemu_profile port_fd console_two_bytes)) = 3
   \<and> mouse_buttons (handle_mouse_input no_format qemu_profile port_fd console_two_bytes) = 0x08
   \<and> scroll_position (handle_mouse_input no_format qemu_profile port_fd console_two_bytes)
       = scroll_position console_two_bytes
   \<and> display_start (handle_mouse_input no_format qemu_profile port_fd console_two_bytes)
       = display_start console_two_bytes"
proof -
  let ?k' = "handle_mouse_input no_format qemu_profile port_fd console_two_bytes"
  have f: "platform qemu_profile = PLATFORM_QEMU_VERSATILE"
    "packet_index console_two_bytes = 2" "length (mouse_packet console_two_bytes) = 3"
    "ps2_read_data port_fd = 0xFD" "(0xFD :: u8) \<noteq> 0"
    "0 < sint (width console_two_bytes)" "0 < sint (height console_two_bytes)"
    "0 \<le> sint (mouse_x console_two_bytes)" "sint (mouse_x console_two_bytes) < 2147483520"
    "0 \<le> sint (mouse_y console_two_bytes)" "sint (mouse_y console_two_bytes) < 2147483520"
    "0x08 = mouse_packet console_two_bytes ! 0" "0x05 = mouse_packet console_two_bytes ! 1"
    by (simp_all add: detect_platform_fixtures console_two_bytes_def console_qemu_def
        console0_def port_fd_def ps2_read_data_def PL050_STAT_RXFULL_def)
  from handle_mouse_input_decodes [OF f refl refl, of no_format]
  have "sint (mouse_x ?k') = 5 \<and> sint (mouse_y ?k') = 3 \<and> mouse_buttons ?k' = 0x08
        \<and> scroll_position ?k' = scroll_position console_two_bytes
        \<and> display_start ?k' = display_start console_two_bytes"
    by (simp add: console_two_bytes_def console_qemu_def console0_def)
  with f(1,2,4) show ?thesis
    by (simp add: console_two_bytes_def console_qemu_def console0_def)
qed

text \<open>Polls that store a byte, and polls that see none.\<close>

lemma ps2_read_data_port_byte: "ps2_read_data (port_byte b) = b"
proof -
  have m: "(0xFF :: u32) = mask 8" by (simp add: mask_eq_exp_minus_1)
  have "(ucast (ucast b AND (0xFF :: u32)) :: u8) = b"
    unfolding m by (rule bit_word_eqI) (auto simp: bit_simps)
  then show ?thesis
    by (simp add: ps2_read_data_def port_byte_def PL050_STAT_RXFULL_def)
qed

lemma handle_mouse_input_no_data:
  "ps2_read_data mouse = 0 \<Longrightarrow> handle_mouse_input fmt cp mouse k = k"
  by (simp add: handle_mouse_input_def)

lemma handle_mouse_input_store:
  assumes "platform cp = PLATFORM_QEMU_VERSATILE" and "ps2_read_data mouse = b" and "b \<noteq> 0"
    and "packet_index k = 0 \<or> packet_index k = 1"
  shows "handle_mouse_input fmt cp mouse k
           = k\<lparr>mouse_packet := (mouse_packet k)[unat (packet_index k) := b],
               packet_index := packet_index k + 1\<rparr>"
proof -
  have "\<not> (3 :: u32) \<le>s packet_index k + 1"
    using assms(4) by (auto simp: word_sle_eq)
  then show ?thesis
    unfolding handle_mouse_input_def
    by (simp add: assms(1,2,3) Let_def split del: if_split cong: if_cong)
qed

lemma handle_mouse_input_third_fields:
  assumes "platform cp = PLATFORM_QEMU_VERSATILE" and "packet_index k = 2"
    and "length (mouse_packet k) = 3" and "ps2_read_data mouse = b2" and "b2 \<noteq> 0"
  shows "mouse_x (handle_mouse_input fmt cp mouse k)
           = clamp_coord (mouse_x k + scast (mouse_packet k ! 1)) (width k)"
    and "mouse_y (handle_mouse_input fmt cp mouse k)
           = clamp_coord (mouse_y k - scast b2) (height k)"
    and "mouse_buttons (handle_mouse_input fmt cp mouse k) = mouse_packet k ! 0"
    and "packet_index (handle_mouse_input fmt cp mouse k) = 0"
    and "mouse_packet (handle_mouse_input fmt cp mouse k) = (mouse_packet k)[2 := b2]"
    and "width (handle_mouse_input fmt cp mouse k) = width k"
    and "height (handle_mouse_input fmt cp mouse k) = height k"
  unfolding handle_mouse_input_third [OF assms] Let_def
  by (simp_all add: handle_scroll_fields)


lemma mouse_polls_snoc:
  "mouse_polls (bs @ [b]) k
     = handle_mouse_input no_format qemu_profile (port_byte b) (mouse_polls bs k)"
  by (simp add: mouse_polls_def)

lemma clamp_coord_inside:
  assumes "0 \<le> sint v" and "sint v < sint limit"
  shows "clamp_coord v limit = v"
  using assms by (simp add: clamp_coord_def Let_def word_sless_alt word_sle_eq)

text \<open>
  C7. \<^verbatim>\<open>ps2_read_data\<close> answers 0 when nothing has been received, and
  \<^verbatim>\<open>handle_mouse_input\<close> returns on 0: a received byte 0x00 is taken for no byte at all
  and is not stored, so the test \<^verbatim>\<open>delta_y != 0\<close> of the decoder never fails. On the
  emulator, with the pointer brought to (100, 100) by the packet (0x08, 100, -100), the
  packet (0x0A, 5, 0) (right button held, five pixels to the right, no vertical movement)
  is not decoded at its third byte: the call changes nothing, the position, the buttons
  and the packet index 2 stay. The first byte 0x08 of the next packet is then stored as
  the third byte and decoded as a vertical delta of 8: the pointer goes to (105, 92) and
  the buttons become 0x0A.
\<close>

theorem handle_mouse_input_zero_byte:
  "mouse_x (mouse_polls [0x08, 0x64, 0x9C] console_qemu) = 100
   \<and> mouse_y (mouse_polls [0x08, 0x64, 0x9C] console_qemu) = 100
   \<and> mouse_buttons (mouse_polls [0x08, 0x64, 0x9C] console_qemu) = 0x08
   \<and> packet_index (mouse_polls [0x08, 0x64, 0x9C] console_qemu) = 0
   \<and> mouse_polls [0x08, 0x64, 0x9C, 0x0A, 0x05, 0x00] console_qemu
       = mouse_polls [0x08, 0x64, 0x9C, 0x0A, 0x05] console_qemu
   \<and> mouse_x (mouse_polls [0x08, 0x64, 0x9C, 0x0A, 0x05, 0x00] console_qemu) = 100
   \<and> mouse_y (mouse_polls [0x08, 0x64, 0x9C, 0x0A, 0x05, 0x00] console_qemu) = 100
   \<and> mouse_buttons (mouse_polls [0x08, 0x64, 0x9C, 0x0A, 0x05, 0x00] console_qemu) = 0x08
   \<and> packet_index (mouse_polls [0x08, 0x64, 0x9C, 0x0A, 0x05, 0x00] console_qemu) = 2
   \<and> mouse_x (mouse_polls [0x08, 0x64, 0x9C, 0x0A, 0x05, 0x00, 0x08] console_qemu) = 105
   \<and> mouse_y (mouse_polls [0x08, 0x64, 0x9C, 0x0A, 0x05, 0x00, 0x08] console_qemu) = 92
   \<and> mouse_buttons (mouse_polls [0x08, 0x64, 0x9C, 0x0A, 0x05, 0x00, 0x08] console_qemu)
       = 0x0A
   \<and> packet_index (mouse_polls [0x08, 0x64, 0x9C, 0x0A, 0x05, 0x00, 0x08] console_qemu) = 0"
proof -
  note q = detect_platform_fixtures(5)
  note rd = ps2_read_data_port_byte
  define k0 where "k0 = console_qemu"
  define k1 where "k1 = mouse_polls [0x08] k0"
  define k2 where "k2 = mouse_polls [0x08, 0x64] k0"
  define k3 where "k3 = mouse_polls [0x08, 0x64, 0x9C] k0"
  define k4 where "k4 = mouse_polls [0x08, 0x64, 0x9C, 0x0A] k0"
  define k5 where "k5 = mouse_polls [0x08, 0x64, 0x9C, 0x0A, 0x05] k0"
  define k6 where "k6 = mouse_polls [0x08, 0x64, 0x9C, 0x0A, 0x05, 0x00] k0"
  define k7 where "k7 = mouse_polls [0x08, 0x64, 0x9C, 0x0A, 0x05, 0x00, 0x08] k0"
  have s1: "k1 = handle_mouse_input no_format qemu_profile (port_byte 0x08) k0"
    and s2: "k2 = handle_mouse_input no_format qemu_profile (port_byte 0x64) k1"
    and s3: "k3 = handle_mouse_input no_format qemu_profile (port_byte 0x9C) k2"
    and s4: "k4 = handle_mouse_input no_format qemu_profile (port_byte 0x0A) k3"
    and s5: "k5 = handle_mouse_input no_format qemu_profile (port_byte 0x05) k4"
    and s6: "k6 = handle_mouse_input no_format qemu_profile (port_byte 0x00) k5"
    and s7: "k7 = handle_mouse_input no_format qemu_profile (port_byte 0x08) k6"
    unfolding k1_def k2_def k3_def k4_def k5_def k6_def k7_def
    using mouse_polls_snoc [of "[]" "0x08" k0]
      mouse_polls_snoc [of "[0x08]" "0x64" k0]
      mouse_polls_snoc [of "[0x08, 0x64]" "0x9C" k0]
      mouse_polls_snoc [of "[0x08, 0x64, 0x9C]" "0x0A" k0]
      mouse_polls_snoc [of "[0x08, 0x64, 0x9C, 0x0A]" "0x05" k0]
      mouse_polls_snoc [of "[0x08, 0x64, 0x9C, 0x0A, 0x05]" "0x00" k0]
      mouse_polls_snoc [of "[0x08, 0x64, 0x9C, 0x0A, 0x05, 0x00]" "0x08" k0]
    by (simp_all add: mouse_polls_def)
  have f0: "mouse_x k0 = 0" "mouse_y k0 = 0" "mouse_buttons k0 = 0" "packet_index k0 = 0"
    "mouse_packet k0 = [0, 0, 0]" "width k0 = 640" "height k0 = 480"
    by (simp_all add: k0_def console_qemu_def console0_def)
  have e1: "k1 = k0\<lparr>mouse_packet := [0x08, 0, 0], packet_index := 1\<rparr>"
    unfolding s1 using handle_mouse_input_store [OF q rd, of "0x08" k0 no_format]
    by (simp add: f0)
  have f1: "mouse_x k1 = 0" "mouse_y k1 = 0" "mouse_buttons k1 = 0" "packet_index k1 = 1"
    "mouse_packet k1 = [0x08, 0, 0]" "width k1 = 640" "height k1 = 480"
    by (simp_all add: e1 f0)
  have e2: "k2 = k1\<lparr>mouse_packet := [0x08, 0x64, 0], packet_index := 2\<rparr>"
    unfolding s2 using handle_mouse_input_store [OF q rd, of "0x64" k1 no_format]
    by (simp add: f1)
  have f2: "mouse_x k2 = 0" "mouse_y k2 = 0" "mouse_buttons k2 = 0" "packet_index k2 = 2"
    "mouse_packet k2 = [0x08, 0x64, 0]" "width k2 = 640" "height k2 = 480"
    by (simp_all add: e2 f1)
  have l2: "length (mouse_packet k2) = 3" by (simp add: f2)
  have nz3: "(0x9C :: u8) \<noteq> 0" by simp
  note t3 = handle_mouse_input_third_fields [OF q f2(4) l2 rd nz3, of no_format,
      folded s3]
  have c100: "clamp_coord 100 640 = 100" "clamp_coord 100 480 = 100"
    by (simp_all add: clamp_coord_inside)
  have f3: "mouse_x k3 = 100" "mouse_y k3 = 100" "mouse_buttons k3 = 0x08"
    "packet_index k3 = 0" "mouse_packet k3 = [0x08, 0x64, 0x9C]" "width k3 = 640"
    "height k3 = 480"
    using t3 by (simp_all add: f2 c100)
  have e4: "k4 = k3\<lparr>mouse_packet := [0x0A, 0x64, 0x9C], packet_index := 1\<rparr>"
    unfolding s4 using handle_mouse_input_store [OF q rd, of "0x0A" k3 no_format]
    by (simp add: f3)
  have f4: "mouse_x k4 = 100" "mouse_y k4 = 100" "mouse_buttons k4 = 0x08"
    "packet_index k4 = 1" "mouse_packet k4 = [0x0A, 0x64, 0x9C]" "width k4 = 640"
    "height k4 = 480"
    by (simp_all add: e4 f3)
  have e5: "k5 = k4\<lparr>mouse_packet := [0x0A, 0x05, 0x9C], packet_index := 2\<rparr>"
    unfolding s5 using handle_mouse_input_store [OF q rd, of "0x05" k4 no_format]
    by (simp add: f4)
  have f5: "mouse_x k5 = 100" "mouse_y k5 = 100" "mouse_buttons k5 = 0x08"
    "packet_index k5 = 2" "mouse_packet k5 = [0x0A, 0x05, 0x9C]" "width k5 = 640"
    "height k5 = 480"
    by (simp_all add: e5 f4)
  have e6: "k6 = k5"
    unfolding s6 by (rule handle_mouse_input_no_data) (simp add: rd)
  have l6: "length (mouse_packet k6) = 3" and i6: "packet_index k6 = 2"
    by (simp_all add: e6 f5)
  have nz7: "(0x08 :: u8) \<noteq> 0" by simp
  note t7 = handle_mouse_input_third_fields [OF q i6 l6 rd nz7, of no_format, folded s7]
  have c7: "clamp_coord 105 640 = 105" "clamp_coord 92 480 = 92"
    by (simp_all add: clamp_coord_inside)
  have f7: "mouse_x k7 = 105" "mouse_y k7 = 92" "mouse_buttons k7 = 0x0A"
    "packet_index k7 = 0"
    using t7 by (simp_all add: e6 f5 c7)
  from f3(1-4) e6 f5(1-4) f7 show ?thesis
    unfolding k3_def k5_def k6_def k7_def k0_def by simp
qed

lemma handle_mouse_input_console_inv:
  assumes "console_inv k"
  shows "console_inv (handle_mouse_input fmt cp mouse k)"
proof -
  have ifx: "(if cnd then r\<lparr>mouse_x := v\<rparr> else r) = r\<lparr>mouse_x := (if cnd then v else mouse_x r)\<rparr>"
    for cnd v and r :: kernel_t by simp
  have ify: "(if cnd then r\<lparr>mouse_y := v\<rparr> else r) = r\<lparr>mouse_y := (if cnd then v else mouse_y r)\<rparr>"
    for cnd v and r :: kernel_t by simp
  have upd: "console_inv (r\<lparr>mouse_x := x\<rparr>) = console_inv r"
    "console_inv (r\<lparr>mouse_y := y\<rparr>) = console_inv r"
    "console_inv (r\<lparr>mouse_buttons := b\<rparr>) = console_inv r"
    "console_inv (r\<lparr>mouse_packet := p\<rparr>) = console_inv r"
    "console_inv (r\<lparr>packet_index := i\<rparr>) = console_inv r"
    for r :: kernel_t and x y b p i
    by (simp_all add: console_inv_def)
  have hs: "console_inv (handle_scroll fmt cp d r) = True" if "console_inv r" for d r
    using handle_scroll_console_inv [OF that] by simp
  show ?thesis
    unfolding handle_mouse_input_def
    by (simp add: Let_def ifx ify upd hs assms if_distrib [of console_inv]
        split del: if_split cong: if_cong)
qed

lemma console_update_console_inv:
  assumes "console_inv k"
  shows "console_inv (console_update fmt cp kbd mouse k)"
proof -
  let ?k2 = "handle_mouse_input fmt cp mouse (handle_keyboard_input fmt cp kbd k)"
  have "console_inv ?k2"
    by (intro handle_mouse_input_console_inv handle_keyboard_input_console_inv assms)
  then have "console_inv (?k2\<lparr>cursor_blink_counter := cursor_blink_counter ?k2 + 1\<rparr>)"
    by (auto simp: console_inv_def)
  then show ?thesis
    by (simp add: console_update_def Let_def
        same_console_console_inv [OF render_console_same])
qed

section \<open>Window start and scroll position\<close>

lemma newline_keeps_equal:
  "display_start s = scroll_position s
     \<Longrightarrow> display_start (newline s) = scroll_position (newline s)"
  by (simp add: newline_display_start newline_scroll_position)

lemma console_putchar_keeps_equal:
  assumes "display_start s = scroll_position s"
  shows "display_start (console_putchar c s) = scroll_position (console_putchar c s)"
  using console_putchar_view [of c s] assms
  by (auto simp: same_view_def newline_keeps_equal)

lemma end_key_fields:
  assumes "platform cp = PLATFORM_QEMU_VERSATILE" and "ps2_read_data kbd = 0x4F"
  shows "scroll_position (handle_keyboard_input fmt cp kbd k) = current_line k"
    and "display_start (handle_keyboard_input fmt cp kbd k)
           = (if console_rows k \<le> current_line k
              then current_line k - console_rows k + 1 else 0)"
  using assms by (simp_all add: handle_keyboard_input_def Let_def)

lemma home_key_fields:
  assumes "platform cp = PLATFORM_QEMU_VERSATILE" and "ps2_read_data kbd = 0x47"
  shows "scroll_position (handle_keyboard_input fmt cp kbd k) = 0"
    and "display_start (handle_keyboard_input fmt cp kbd k) = 0"
  using assms by (simp_all add: handle_keyboard_input_def Let_def)

lemma end_key_window_below:
  fixes cl r :: u32
  assumes "r \<le> cl" and "1 < r"
  shows "cl - r + 1 < cl" and "max 0 (uint cl - uint r + 1) < uint cl"
proof -
  from assms have a: "unat r \<le> unat cl" "1 < unat r"
    by (simp_all add: word_le_nat_alt word_less_nat_alt)
  have "unat (cl - r) = unat cl - unat r" using assms(1) by (simp add: unat_sub)
  moreover have "unat cl - unat r + 1 < 2 ^ 32"
    using a unsigned_less [of cl, where ?'a = nat] by simp
  ultimately have "unat (cl - r + 1) = unat cl - unat r + 1"
    by (simp add: unat_word_ariths)
  with a show "cl - r + 1 < cl" by (simp add: word_less_nat_alt)
  from assms have "uint r \<le> uint cl" "1 < uint r"
    by (simp_all add: word_le_def word_less_def)
  then show "max 0 (uint cl - uint r + 1) < uint cl" by simp
qed

text \<open>
  C10. \<open>display_start = scroll_position\<close> holds after \<^verbatim>\<open>init_console_buffer\<close>, is
  kept by every \<^verbatim>\<open>console_putchar\<close> and every \<^verbatim>\<open>handle_scroll\<close> (which restores it in
  every state of the running console), and holds after the Home key. The End key breaks
  it: with \<open>current_line \<ge> console_rows\<close> it sets \<open>scroll_position = current_line\<close> and
  \<open>display_start = current_line - console_rows + 1\<close>, so that for more than one row the
  scroll position lies beyond both the window start and the clamp maximum
  \<open>max(0, current_line - console_rows + 1)\<close> of \<^verbatim>\<open>handle_scroll\<close>.
\<close>

theorem end_key_breaks_scroll_equality:
  fixes s :: "'a universal_console_t_scheme" and k :: kernel_t
  shows "display_start (snd (init_console_buffer s)) = scroll_position (snd (init_console_buffer s))
   \<and> (display_start s = scroll_position s \<longrightarrow>
        display_start (console_putchar c s) = scroll_position (console_putchar c s))
   \<and> (display_start k = scroll_position k \<or> console_inv k \<longrightarrow>
        display_start (handle_scroll fmt cp delta k)
          = scroll_position (handle_scroll fmt cp delta k))
   \<and> (platform cp = PLATFORM_QEMU_VERSATILE \<and> ps2_read_data kbd = 0x47 \<longrightarrow>
        display_start (handle_keyboard_input fmt cp kbd k) = 0
        \<and> scroll_position (handle_keyboard_input fmt cp kbd k) = 0)
   \<and> (platform cp = PLATFORM_QEMU_VERSATILE \<and> ps2_read_data kbd = 0x4F
        \<and> console_rows k \<le> current_line k \<longrightarrow>
        scroll_position (handle_keyboard_input fmt cp kbd k) = current_line k
        \<and> display_start (handle_keyboard_input fmt cp kbd k)
            = current_line k - console_rows k + 1
        \<and> (1 < console_rows k \<longrightarrow>
             display_start (handle_keyboard_input fmt cp kbd k)
               < scroll_position (handle_keyboard_input fmt cp kbd k)
             \<and> max 0 (uint (current_line k) - uint (console_rows k) + 1)
                 < uint (scroll_position (handle_keyboard_input fmt cp kbd k))))"
proof (intro conjI impI)
  show "display_start (snd (init_console_buffer s)) = scroll_position (snd (init_console_buffer s))"
    by (simp add: init_console_buffer_fields)
next
  assume "display_start s = scroll_position s"
  then show "display_start (console_putchar c s) = scroll_position (console_putchar c s)"
    by (rule console_putchar_keeps_equal)
next
  assume "display_start k = scroll_position k \<or> console_inv k"
  then show "display_start (handle_scroll fmt cp delta k)
               = scroll_position (handle_scroll fmt cp delta k)"
    using handle_scroll_display_start [of k fmt cp delta]
    by (auto simp: handle_scroll_fields)
next
  assume "platform cp = PLATFORM_QEMU_VERSATILE \<and> ps2_read_data kbd = 0x47"
  then show "display_start (handle_keyboard_input fmt cp kbd k) = 0"
    and "scroll_position (handle_keyboard_input fmt cp kbd k) = 0"
    by (simp_all add: home_key_fields)
next
  assume a: "platform cp = PLATFORM_QEMU_VERSATILE \<and> ps2_read_data kbd = 0x4F
             \<and> console_rows k \<le> current_line k"
  then show "scroll_position (handle_keyboard_input fmt cp kbd k) = current_line k"
    and "display_start (handle_keyboard_input fmt cp kbd k)
           = current_line k - console_rows k + 1"
    by (simp_all add: end_key_fields)
  assume r: "1 < console_rows k"
  from a r show "display_start (handle_keyboard_input fmt cp kbd k)
               < scroll_position (handle_keyboard_input fmt cp kbd k)"
    by (simp add: end_key_fields end_key_window_below(1))
  from a r show "max 0 (uint (current_line k) - uint (console_rows k) + 1)
                 < uint (scroll_position (handle_keyboard_input fmt cp kbd k))"
    by (simp only: end_key_fields end_key_window_below(2))
qed

theorem end_key_breaks_scroll_equality_witness:
  "display_start console_2500 = scroll_position console_2500
   \<and> console_inv console_2500
   \<and> ps2_read_data port_home = 0x47 \<and> ps2_read_data port_end = 0x4F
   \<and> console_rows console_2500 \<le> current_line console_2500
   \<and> 1 < console_rows console_2500
   \<and> display_start (console_putchar 0x0A console_2500)
       = scroll_position (console_putchar 0x0A console_2500)
   \<and> display_start (handle_scroll no_format qemu_profile (- 1000) console_2500)
       = scroll_position (handle_scroll no_format qemu_profile (- 1000) console_2500)
   \<and> scroll_position (handle_keyboard_input no_format qemu_profile port_home console_2500) = 0
   \<and> display_start (handle_keyboard_input no_format qemu_profile port_home console_2500) = 0
   \<and> scroll_position (handle_keyboard_input no_format qemu_profile port_end console_2500) = 2500
   \<and> display_start (handle_keyboard_input no_format qemu_profile port_end console_2500) = 2472"
proof -
  have p: "ps2_read_data port_home = 0x47" "ps2_read_data port_end = 0x4F"
    by (simp_all add: port_home_def port_end_def ps2_read_data_def PL050_STAT_RXFULL_def)
  note q = detect_platform_fixtures(5)
  note t1 = end_key_breaks_scroll_equality
              [of console_2500 "0x0A" console_2500 no_format qemu_profile "- 1000" port_home]
  note t2 = end_key_breaks_scroll_equality
              [of console_2500 "0x0A" console_2500 no_format qemu_profile "- 1000" port_end]
  from t1 t2 show ?thesis
    using console_2500_inv by (simp add: p q console_2500_fields)
qed

section \<open>Initialisation\<close>

lemma detect_platform_profile:
  assumes "detect_platform mem cp0 = (p, cp1)"
  shows "platform cp1 = p"
    and "p = PLATFORM_QEMU_VERSATILE \<or> mailbox_available cp1"
    and "p = PLATFORM_QEMU_VERSATILE \<longrightarrow> has_ps2 cp1"
  using assms
  by (auto simp: detect_platform_def mailbox_available_def Let_def hw_consts
      split: prod.splits if_splits)

lemma rows_bound: "(h :: u32) div 16 \<le> 0x0FFFFFFF"
proof -
  have "unat (h div 16) = unat h div 16" by (simp add: unat_div)
  moreover have "unat h < 2 ^ 32" using unsigned_less [of h, where ?'a = nat] by simp
  ultimately have "unat (h div 16) \<le> 268435455" by simp
  then show ?thesis by (simp add: word_le_nat_alt)
qed

lemma setup_framebuffer_rows:
  assumes "setup_framebuffer gpu cp w h console = Some (0, c)"
    and "platform cp = PLATFORM_QEMU_VERSATILE \<longrightarrow> h = 480"
  shows "0 < console_rows c" and "console_rows c \<le> 0x0FFFFFFF"
proof -
  have "0 < console_rows c \<and> console_rows c \<le> 0x0FFFFFFF"
  proof (cases "platform cp = PLATFORM_QEMU_VERSATILE")
    case True
    with assms show ?thesis by (auto simp: setup_framebuffer_qemu console_consts)
  next
    case False
    with setup_framebuffer_success [OF assms(1)]
    obtain r where r: "mailbox_available cp" "gpu (fb_call w h) = Some r"
      "req_code r = 0x80000000" by blast
    from assms(1) have c: "c = snd (the (setup_framebuffer gpu cp w h console))" by simp
    have "console_rows c = max 15 ((set_height r - 16) div 16)"
      unfolding c by (simp add: setup_framebuffer_firmware [of cp gpu w h r] r console_consts)
    moreover have "(0 :: u32) < max 15 ((set_height r - 16) div 16)"
      by (simp add: max_def word_less_nat_alt word_le_nat_alt)
    moreover have "max 15 ((set_height r - 16) div 16) \<le> (0x0FFFFFFF :: u32)"
      using rows_bound [of "set_height r - 16"] by simp
    ultimately show ?thesis by simp
  qed
  then show "0 < console_rows c" and "console_rows c \<le> 0x0FFFFFFF" by simp_all
qed

lemma console_puts_console_inv [simp]:
  "console_inv k \<Longrightarrow> console_inv (console_puts str k)"
  by (simp add: console_puts_def fold_putchar_console_inv)

lemma console_printf_console_inv [simp]:
  "console_inv k \<Longrightarrow> console_inv (console_printf fmt f args k)"
  by (simp add: console_printf_def)

lemma console_set_color_console_inv [simp]:
  "console_inv k \<Longrightarrow> console_inv (console_set_color fg bg k)"
  by (auto simp: console_set_color_def console_inv_def)

lemma clear_screen_console_inv [simp]:
  "console_inv k \<Longrightarrow> console_inv (clear_screen color k)"
  by (simp add: same_console_console_inv [OF clear_screen_same])

lemma fold_steps_inv:
  assumes "\<forall>step \<in> set steps. \<forall>k. P k \<longrightarrow> P (step k)" and "P k"
  shows "P (fold (\<lambda>step. step) steps k)"
  using assms by (induction steps arbitrary: k) simp_all

lemma init_console_buffer_console_inv:
  assumes "0 < console_rows k" and "console_rows k \<le> 0x0FFFFFFF"
  shows "console_inv (snd (init_console_buffer k))"
  by (rule follow_inv_console_inv)
     (simp_all add: init_console_buffer_follow_inv assms init_console_buffer_fields)

text \<open>The resolution \<^verbatim>\<open>universal_console_init\<close> passes on the emulator.\<close>

lemma detect_display_resolution_qemu:
  "platform cp = PLATFORM_QEMU_VERSATILE
     \<Longrightarrow> detect_display_resolution gpu cp = Some (0, 640, 480)"
  by (simp add: detect_display_resolution_def)

lemma detect_platform_fst:
  "fst (detect_platform mem cp0) = platform (snd (detect_platform mem cp0))"
  using detect_platform_profile(1) [of mem cp0] by (cases "detect_platform mem cp0") simp

lemma universal_console_init_unfold:
  "universal_console_init hw fmt cp0 k0 =
     (let cp = snd (detect_platform (hw_mem hw) cp0)
      in case init_resolution (hw_gpu hw) cp of
           None \<Rightarrow> None
         | Some (w, h) \<Rightarrow>
             (case setup_framebuffer (hw_gpu hw) cp w h k0 of
                None \<Rightarrow> None
              | Some (rc1, k1) \<Rightarrow>
                  if rc1 \<noteq> 0 then Some (- 1, cp, k1)
                  else
                    (case init_ps2_devices (hw_ps2_tx_idle hw) cp k1 of
                       None \<Rightarrow> None
                     | Some k2 \<Rightarrow>
                         Some (0, cp, init_banner fmt cp (snd (init_console_buffer k2))))))"
proof -
  obtain p cp1 where d: "detect_platform (hw_mem hw) cp0 = (p, cp1)" by fastforce
  have cpe: "cp1\<lparr>platform := p\<rparr> = cp1"
    using detect_platform_profile(1) [OF d] by simp
  have i0: "(fst (init_console_buffer k2) \<noteq> 0) = False" for k2 :: kernel_t
    by (simp add: init_console_buffer_fields)
  show ?thesis
  proof (cases "detect_display_resolution (hw_gpu hw) cp1")
    case None
    then show ?thesis
      unfolding universal_console_init_def init_resolution_def d
      by (simp only: Let_def prod.case fst_conv snd_conv cpe option.case)
  next
    case (Some x)
    obtain rc w0 h0 where x: "x = (rc, w0, h0)" by (cases x) auto
    show ?thesis
      unfolding universal_console_init_def init_resolution_def init_banner_def d
      by (simp only: Let_def prod.case fst_conv snd_conv cpe option.case Some x split_def
          i0 if_False)
  qed
qed

lemma init_banner_console_inv:
  assumes "console_inv k3"
  shows "console_inv (init_banner fmt cp k3)"
  unfolding init_banner_def
  by (rule fold_steps_inv [where P = console_inv]) (simp_all add: assms)

lemma init_resolution_qemu:
  "platform cp = PLATFORM_QEMU_VERSATILE \<Longrightarrow> init_resolution gpu cp = Some (640, 480)"
  by (simp add: init_resolution_def detect_display_resolution_qemu)

lemma setup_framebuffer_failure:
  assumes "setup_framebuffer gpu cp w h console = Some (rc, c)" and "rc \<noteq> 0"
    and "platform cp = PLATFORM_QEMU_VERSATILE \<or> mailbox_available cp"
  shows "rc = - 1" and "c = console" and "platform cp \<noteq> PLATFORM_QEMU_VERSATILE"
    and "\<exists>r. gpu (fb_call w h) = Some r \<and> req_code r \<noteq> 0x80000000"
  using assms
  by (auto simp: setup_framebuffer_def fb_call_def Let_def split: option.splits if_splits)

lemma universal_console_init_result:
  assumes "universal_console_init hw fmt cp0 k0 = Some (rc, cp, k)"
  shows "cp = snd (detect_platform (hw_mem hw) cp0)"
    and "rc = 0 \<or> rc = - 1"
    and "rc = - 1 \<longrightarrow> platform cp \<noteq> PLATFORM_QEMU_VERSATILE \<and> k = k0
           \<and> (\<exists>w h r. init_resolution (hw_gpu hw) cp = Some (w, h)
                  \<and> hw_gpu hw (fb_call w h) = Some r \<and> req_code r \<noteq> 0x80000000)"
    and "rc = 0 \<longrightarrow> console_inv k
           \<and> (platform cp = PLATFORM_QEMU_VERSATILE
              \<or> (\<exists>w h r. init_resolution (hw_gpu hw) cp = Some (w, h)
                     \<and> hw_gpu hw (fb_call w h) = Some r \<and> req_code r = 0x80000000))"
proof -
  define cp1 where "cp1 = snd (detect_platform (hw_mem hw) cp0)"
  have ma: "platform cp1 = PLATFORM_QEMU_VERSATILE \<or> mailbox_available cp1"
    using detect_platform_profile(1,2) [of "hw_mem hw" cp0]
    by (cases "detect_platform (hw_mem hw) cp0") (auto simp: cp1_def)
  note u = assms [unfolded universal_console_init_unfold Let_def, folded cp1_def]
  from u obtain w h where ir: "init_resolution (hw_gpu hw) cp1 = Some (w, h)"
    by (auto split: option.splits)
  have hq: "platform cp1 = PLATFORM_QEMU_VERSATILE \<longrightarrow> h = 480"
    using ir by (auto simp: init_resolution_qemu)
  from u ir obtain rc1 k1 where
    sf: "setup_framebuffer (hw_gpu hw) cp1 w h k0 = Some (rc1, k1)"
    by (auto split: option.splits)
  have v: "(if rc1 \<noteq> 0 then Some (- 1, cp1, k1)
            else (case init_ps2_devices (hw_ps2_tx_idle hw) cp1 k1 of
                    None \<Rightarrow> None
                  | Some k2 \<Rightarrow>
                      Some (0, cp1, init_banner fmt cp1 (snd (init_console_buffer k2)))))
           = Some (rc, cp, k)"
    using u by (simp only: ir sf option.case prod.case)
  have alt: "(rc1 \<noteq> 0 \<and> rc = - 1 \<and> cp = cp1 \<and> k = k1)
      \<or> (rc1 = 0 \<and> rc = 0 \<and> cp = cp1
         \<and> (\<exists>k2. init_ps2_devices (hw_ps2_tx_idle hw) cp1 k1 = Some k2
                \<and> k = init_banner fmt cp1 (snd (init_console_buffer k2))))"
  proof (cases "rc1 = 0")
    case False
    with v have "Some (- 1, cp1, k1) = Some (rc, cp, k)" by (simp only: simp_thms if_True)
    with False show ?thesis by simp
  next
    case True
    with v have w: "(case init_ps2_devices (hw_ps2_tx_idle hw) cp1 k1 of
                    None \<Rightarrow> None
                  | Some k2 \<Rightarrow>
                      Some (0, cp1, init_banner fmt cp1 (snd (init_console_buffer k2))))
           = Some (rc, cp, k)"
      by (simp only: simp_thms if_False)
    then obtain k2 where ps2: "init_ps2_devices (hw_ps2_tx_idle hw) cp1 k1 = Some k2"
      by (cases "init_ps2_devices (hw_ps2_tx_idle hw) cp1 k1") simp_all
    from w have "Some (0, cp1, init_banner fmt cp1 (snd (init_console_buffer k2)))
        = Some (rc, cp, k)"
      by (simp only: ps2 option.case)
    then have "rc = 0" "cp = cp1" "k = init_banner fmt cp1 (snd (init_console_buffer k2))"
      by auto
    with True ps2 show ?thesis by blast
  qed
  show c: "cp = snd (detect_platform (hw_mem hw) cp0)"
    using alt by (auto simp: cp1_def)
  show "rc = 0 \<or> rc = - 1"
    using alt by blast
  show "rc = - 1 \<longrightarrow> platform cp \<noteq> PLATFORM_QEMU_VERSATILE \<and> k = k0
           \<and> (\<exists>w h r. init_resolution (hw_gpu hw) cp = Some (w, h)
                  \<and> hw_gpu hw (fb_call w h) = Some r \<and> req_code r \<noteq> 0x80000000)"
  proof
    assume "rc = - 1"
    with alt have f: "rc1 \<noteq> 0" "k = k1" "cp = cp1" by auto
    from setup_framebuffer_failure(2-4) [OF sf f(1) ma] f ir
    show "platform cp \<noteq> PLATFORM_QEMU_VERSATILE \<and> k = k0
           \<and> (\<exists>w h r. init_resolution (hw_gpu hw) cp = Some (w, h)
                  \<and> hw_gpu hw (fb_call w h) = Some r \<and> req_code r \<noteq> 0x80000000)"
      by blast
  qed
  show "rc = 0 \<longrightarrow> console_inv k
           \<and> (platform cp = PLATFORM_QEMU_VERSATILE
              \<or> (\<exists>w h r. init_resolution (hw_gpu hw) cp = Some (w, h)
                     \<and> hw_gpu hw (fb_call w h) = Some r \<and> req_code r = 0x80000000))"
  proof
    assume "rc = 0"
    with alt obtain k2 where r1: "rc1 = 0"
      and ps2: "init_ps2_devices (hw_ps2_tx_idle hw) cp1 k1 = Some k2"
      and k: "k = init_banner fmt cp1 (snd (init_console_buffer k2))" and cc: "cp = cp1"
      by auto
    from sf r1 have sf0: "setup_framebuffer (hw_gpu hw) cp1 w h k0 = Some (0, k1)" by simp
    note rows = setup_framebuffer_rows [OF sf0 hq]
    from ps2 have rows2: "0 < console_rows k2" "console_rows k2 \<le> 0x0FFFFFFF"
      using rows by (auto simp: init_ps2_devices_def split: if_splits)
    have "console_inv k"
      unfolding k
      by (rule init_banner_console_inv, rule init_console_buffer_console_inv, rule rows2,
          rule rows2)
    moreover from setup_framebuffer_success [OF sf0] cc ir
    have "platform cp = PLATFORM_QEMU_VERSATILE
              \<or> (\<exists>w h r. init_resolution (hw_gpu hw) cp = Some (w, h)
                     \<and> hw_gpu hw (fb_call w h) = Some r \<and> req_code r = 0x80000000)"
      by auto
    ultimately show "console_inv k
           \<and> (platform cp = PLATFORM_QEMU_VERSATILE
              \<or> (\<exists>w h r. init_resolution (hw_gpu hw) cp = Some (w, h)
                     \<and> hw_gpu hw (fb_call w h) = Some r \<and> req_code r = 0x80000000))"
      by simp
  qed
qed


text \<open>
  When every mailbox call is answered and the PS/2 transmitter becomes idle, no
  busy-wait of \<^verbatim>\<open>universal_console_init\<close> runs forever.
\<close>

lemma init_resolution_returns:
  assumes "\<forall>q. gpu q \<noteq> None"
  shows "init_resolution gpu cp \<noteq> None"
proof -
  obtain r where "gpu (zero_request\<lparr>req_size := sizeof_display_request_t,
      tag_get_physical := 0x40003, tag_get_physical_size := 8\<rparr>) = Some r"
    using assms by fastforce
  then have "detect_display_resolution gpu cp \<noteq> None"
    by (simp add: detect_display_resolution_def split: platform_type_t.splits)
  then show ?thesis
    by (auto simp: init_resolution_def split: option.splits)
qed

lemma setup_framebuffer_returns:
  assumes "\<forall>q. gpu q \<noteq> None"
  shows "setup_framebuffer gpu cp w h console \<noteq> None"
proof -
  obtain r where "gpu (fb_call w h) = Some r" using assms by fastforce
  then show ?thesis
    by (simp add: setup_framebuffer_def fb_call_def Let_def)
qed

lemma universal_console_init_returns:
  assumes "\<forall>q. hw_gpu hw q \<noteq> None" and "hw_ps2_tx_idle hw"
  shows "universal_console_init hw fmt cp0 k0 \<noteq> None"
proof -
  define cp where "cp = snd (detect_platform (hw_mem hw) cp0)"
  obtain w h where ir: "init_resolution (hw_gpu hw) cp = Some (w, h)"
    using init_resolution_returns [OF assms(1), of cp] by auto
  obtain rc1 k1 where sf: "setup_framebuffer (hw_gpu hw) cp w h k0 = Some (rc1, k1)"
    using setup_framebuffer_returns [OF assms(1), of cp w h k0] by auto
  obtain k2 where ps2: "init_ps2_devices (hw_ps2_tx_idle hw) cp k1 = Some k2"
    using assms(2) by (cases "platform cp = PLATFORM_QEMU_VERSATILE")
      (simp_all add: init_ps2_devices_def)
  show ?thesis
    unfolding universal_console_init_unfold Let_def cp_def [symmetric]
    by (simp only: ir sf ps2 option.case prod.case) simp
qed

text \<open>The two machines: the refused boot and the boot under the emulator.\<close>

lemma init_resolution_refusing:
  "init_resolution (hw_gpu hw_refusing) pi1_profile = Some (1024, 768)"
  by (simp add: init_resolution_def detect_display_resolution_def hw_refusing_def
      detect_platform_fixtures mailbox_available_def zero_request_def)

lemma universal_console_init_refusing:
  "universal_console_init hw_refusing fmt current_platform0 k0 = Some (- 1, pi1_profile, k0)"
proof -
  have cp: "snd (detect_platform (hw_mem hw_refusing) current_platform0) = pi1_profile"
    by (simp add: pi1_profile_def hw_refusing_def)
  have sf: "setup_framebuffer (hw_gpu hw_refusing) pi1_profile 1024 768 k0 = Some (- 1, k0)"
    by (simp add: setup_framebuffer_def hw_refusing_def detect_platform_fixtures
        mailbox_available_def)
  show ?thesis
    unfolding universal_console_init_unfold Let_def cp
    by (simp only: init_resolution_refusing sf option.case prod.case) simp
qed

lemma universal_console_init_qemu:
  "\<exists>k. universal_console_init hw_qemu fmt current_platform0 console0
          = Some (0, qemu_profile, k)"
proof -
  have cp: "snd (detect_platform (hw_mem hw_qemu) current_platform0) = qemu_profile"
    by (simp add: qemu_profile_def hw_qemu_def)
  have ir: "init_resolution (hw_gpu hw_qemu) qemu_profile = Some (640, 480)"
    by (simp add: init_resolution_qemu detect_platform_fixtures)
  have ps2: "init_ps2_devices (hw_ps2_tx_idle hw_qemu) qemu_profile console_qemu
      = Some (console_qemu\<lparr>mouse_available := True, keyboard_available := True\<rparr>)"
    by (simp add: init_ps2_devices_def hw_qemu_def detect_platform_fixtures)
  show ?thesis
    unfolding universal_console_init_unfold Let_def cp
    by (simp only: ir setup_framebuffer_console_qemu ps2 option.case prod.case) simp
qed

text \<open>
  C3. \<^verbatim>\<open>universal_console_init\<close> has three outcomes. It does not return only when a
  mailbox call is never answered or the PS/2 transmitter never becomes idle. When it
  returns, the platform profile is the detected one and the return value is 0 or -1.
  It is -1 exactly on a platform other than the emulator whose firmware answers the
  framebuffer request, made at the resolution the initialisation settled on, with a
  response code other than 0x80000000: then the console is left as it was, its buffer
  not initialised and nothing printed. It is 0 on the emulator, and when the firmware
  answers that request with 0x80000000: then the console is in the states described by
  \<open>console_inv\<close>. In every returned state whose framebuffer address is null,
  \<^verbatim>\<open>render_console\<close> changes nothing.
\<close>

theorem universal_console_init_outcomes:
  "(case universal_console_init hw fmt cp0 k0 of
      None \<Rightarrow> (\<exists>q. hw_gpu hw q = None) \<or> \<not> hw_ps2_tx_idle hw
    | Some (rc, cp, k) \<Rightarrow>
        cp = snd (detect_platform (hw_mem hw) cp0)
        \<and> (rc = 0 \<or> rc = - 1)
        \<and> (rc = - 1 \<longrightarrow>
             platform cp \<noteq> PLATFORM_QEMU_VERSATILE \<and> k = k0
             \<and> (\<exists>w h r. init_resolution (hw_gpu hw) cp = Some (w, h)
                    \<and> hw_gpu hw (fb_call w h) = Some r \<and> req_code r \<noteq> 0x80000000))
        \<and> (rc = 0 \<longrightarrow>
             console_inv k
             \<and> (platform cp = PLATFORM_QEMU_VERSATILE
                \<or> (\<exists>w h r. init_resolution (hw_gpu hw) cp = Some (w, h)
                       \<and> hw_gpu hw (fb_call w h) = Some r \<and> req_code r = 0x80000000)))
        \<and> (framebuffer k = 0 \<longrightarrow> render_console fmt cp k = k))"
proof (cases "universal_console_init hw fmt cp0 k0")
  case None
  with universal_console_init_returns [of hw fmt cp0 k0]
  have "(\<exists>q. hw_gpu hw q = None) \<or> \<not> hw_ps2_tx_idle hw" by auto
  with None show ?thesis by (simp only: option.case)
next
  case (Some x)
  obtain rc cp k where x: "x = (rc, cp, k)" by (cases x) auto
  note u = Some [unfolded x]
  note r = universal_console_init_result [OF u]
  have "framebuffer k = 0 \<longrightarrow> render_console fmt cp k = k"
    by (simp add: render_console_null)
  with r show ?thesis
    unfolding u by (simp only: option.case prod.case simp_thms)
qed

theorem universal_console_init_outcomes_witness:
  "\<exists>k. universal_console_init hw_qemu no_format current_platform0 console0
          = Some (0, qemu_profile, k)
       \<and> console_inv k"
proof -
  obtain k where k: "universal_console_init hw_qemu no_format current_platform0 console0
      = Some (0, qemu_profile, k)"
    using universal_console_init_qemu [of no_format] by blast
  from universal_console_init_outcomes [of hw_qemu current_platform0 console0 no_format]
  have "console_inv k" unfolding k by simp
  with k show ?thesis by blast
qed

theorem universal_console_init_refused_counterexample:
  "universal_console_init hw_refusing no_format current_platform0 console0
     = Some (- 1, pi1_profile, console0)
   \<and> platform pi1_profile = PLATFORM_PI_BCM2835
   \<and> buffer_lines console0 = 0 \<and> \<not> console_inv console0"
  by (simp add: universal_console_init_refusing detect_platform_fixtures console0_def
      console_inv_def console_consts)

end
